theory Spec2Isabelle
  imports Complex_Main
begin

section \<open>Data model of \<open>bemio/data_structures/bem.py\<close>\<close>

text \<open>
  The module stores hydrodynamic coefficients in numpy arrays of floating point numbers and
  derives impulse response functions and state space realizations from them. Floating point
  numbers are idealised as real numbers throughout; arrays are nested lists (a vector is a
  list, a matrix a list of rows, a three-dimensional array a list of matrices).
  Exceptions are values: every function that can raise returns \<open>error + 'a\<close>.
\<close>

type_synonym vec = "real list"
type_synonym mat = "real list list"
type_synonym tensor = "real list list list"
type_synonym tensor4 = "real list list list list"

datatype error =
    ValueError
  | IndexError
  | AttributeError
  | LinAlgError
  | Exception string

text \<open>
  \<open>HydrodynamicData\<close> with the attributes the four \<open>calc_\<close> methods read and write.
  The nested objects (\<open>self.ex.irf.t\<close>, \<open>self.rd.ss.A\<close>, ...) are flattened into one
  record, a field \<open>ex_irf_t\<close> standing for \<open>self.ex.irf.t\<close>. Nothing in the module
  ever sets \<open>self.rd.im\<close>, so that attribute is optional: \<open>None\<close> is the missing
  attribute, whose read raises \<open>AttributeError\<close>.
\<close>

record hydrodynamic_data =
  name :: string
  w :: vec
  am_inf :: mat
  ex_mag :: tensor
  ex_re :: tensor
  ex_im :: tensor
  rd_all :: tensor
  rd_im :: "tensor option"
  ex_irf_t :: vec
  ex_irf_w :: vec
  ex_irf_f :: tensor
  rd_irf_t :: vec
  rd_irf_w :: vec
  rd_irf_L :: tensor
  rd_irf_K :: tensor
  rd_ss_A :: tensor4
  rd_ss_B :: tensor4
  rd_ss_C :: tensor4
  rd_ss_D :: tensor
  rd_ss_irk_bss :: tensor
  rd_ss_rad_conv :: mat
  rd_ss_it :: mat
  rd_ss_r2t :: mat

section \<open>The numpy operations the methods use\<close>

text \<open>\<open>a.shape[0]\<close> and \<open>a.shape[1]\<close> of an array held as nested lists.\<close>

definition shape0 :: "'a list \<Rightarrow> nat" where
  "shape0 a = length a"

definition shape1 :: "'a list list \<Rightarrow> nat" where
  "shape1 a = (case a of [] \<Rightarrow> 0 | r # _ \<Rightarrow> length r)"

text \<open>\<open>np.zeros([n])\<close>, \<open>np.zeros([m, n])\<close>, \<open>np.zeros([l, m, n])\<close>, \<open>np.zeros([k, l, m, n])\<close>.\<close>

definition zeros1 :: "nat \<Rightarrow> vec" where
  "zeros1 n = replicate n 0"

definition zeros2 :: "nat \<Rightarrow> nat \<Rightarrow> mat" where
  "zeros2 m n = replicate m (zeros1 n)"

definition zeros3 :: "nat \<Rightarrow> nat \<Rightarrow> nat \<Rightarrow> tensor" where
  "zeros3 l m n = replicate l (zeros2 m n)"

definition zeros4 :: "nat \<Rightarrow> nat \<Rightarrow> nat \<Rightarrow> nat \<Rightarrow> tensor4" where
  "zeros4 k l m n = replicate k (zeros3 l m n)"

text \<open>\<open>np.min\<close> and \<open>np.max\<close> raise \<open>ValueError\<close> on an empty array.\<close>

definition np_min :: "vec \<Rightarrow> error + real" where
  "np_min xs = (case xs of [] \<Rightarrow> Inl ValueError | x # r \<Rightarrow> Inr (fold min r x))"

definition np_max :: "vec \<Rightarrow> error + real" where
  "np_max xs = (case xs of [] \<Rightarrow> Inl ValueError | x # r \<Rightarrow> Inr (fold max r x))"

text \<open>
  \<open>np.linspace(start, stop, num)\<close>: no point for \<open>num = 0\<close>, the start alone for
  \<open>num = 1\<close>, otherwise \<open>start + k * step\<close> with \<open>step = (stop - start) / (num - 1)\<close> and
  the last point overwritten with \<open>stop\<close>. The number of samples is a natural number.
\<close>

definition linspace :: "real \<Rightarrow> real \<Rightarrow> nat \<Rightarrow> vec" where
  "linspace start stop num =
     (if num = 0 then []
      else if num = 1 then [start]
      else (let step = (stop - start) / real (num - 1)
            in (map (\<lambda>k. start + real k * step) [0..<num])[num - 1 := stop]))"

text \<open>\<open>np.flipud\<close> of a one-dimensional array.\<close>

definition flipud :: "'a list \<Rightarrow> 'a list" where
  "flipud xs = rev xs"

text \<open>Reading \<open>a[i, j, :]\<close> and writing \<open>a[i, j, :] = v\<close> and \<open>a[i, j, k] = x\<close>.\<close>

definition get_row :: "tensor \<Rightarrow> nat \<Rightarrow> nat \<Rightarrow> error + vec" where
  "get_row a i j =
     (if i < length a \<and> j < length (a ! i) then Inr (a ! i ! j) else Inl IndexError)"

definition set_row :: "tensor \<Rightarrow> nat \<Rightarrow> nat \<Rightarrow> vec \<Rightarrow> error + tensor" where
  "set_row a i j v =
     (if i < length a \<and> j < length (a ! i)
      then (if length v = length (a ! i ! j)
            then Inr (a[i := (a ! i)[j := v]])
            else Inl ValueError)
      else Inl IndexError)"

definition set_elem3 :: "tensor \<Rightarrow> nat \<Rightarrow> nat \<Rightarrow> nat \<Rightarrow> real \<Rightarrow> error + tensor" where
  "set_elem3 a i j k x =
     (if i < length a \<and> j < length (a ! i) \<and> k < length (a ! i ! j)
      then Inr (a[i := (a ! i)[j := (a ! i ! j)[k := x]]])
      else Inl IndexError)"

definition set_elem2 :: "mat \<Rightarrow> nat \<Rightarrow> nat \<Rightarrow> real \<Rightarrow> error + mat" where
  "set_elem2 a i j x =
     (if i < length a \<and> j < length (a ! i)
      then Inr (a[i := (a ! i)[j := x]])
      else Inl IndexError)"

text \<open>A \<open>for\<close> loop whose body may raise: the first exception ends the loop.\<close>

fun for_each :: "'a list \<Rightarrow> ('a \<Rightarrow> 's \<Rightarrow> error + 's) \<Rightarrow> 's \<Rightarrow> error + 's" where
  "for_each [] body s = Inr s"
| "for_each (x # xs) body s =
     (case body x s of Inl e \<Rightarrow> Inl e | Inr s' \<Rightarrow> for_each xs body s')"

text \<open>
  \<open>np.trapz(y, x)\<close>: with \<open>d = np.diff(x)\<close>, the sum of
  \<open>d * (y[1:] + y[:-1]) / 2.0\<close>.
\<close>

definition np_diff :: "vec \<Rightarrow> vec" where
  "np_diff x = map2 (\<lambda>b a. b - a) (tl x) (butlast x)"

definition np_trapz :: "vec \<Rightarrow> vec \<Rightarrow> real" where
  "np_trapz y x =
     sum_list (map2 (\<lambda>d s. d * s / 2) (np_diff x) (map2 (+) (tl y) (butlast y)))"

text \<open>
  \<open>scipy.interpolate.interp1d(x, y)\<close> with its defaults (linear kind, bounds checked,
  \<open>x\<close> not assumed sorted) applied to the new points \<open>x_new\<close>. The library sorts the
  nodes by \<open>x\<close>, refuses arrays of different lengths or with fewer than two entries and
  any new point outside the nodes' range with \<open>ValueError\<close>, and interpolates at a point
  \<open>v\<close> between the nodes \<open>hi - 1\<close> and \<open>hi\<close>, where \<open>hi\<close> is
  \<open>searchsorted(x, v)\<close> clipped to \<open>1 .. len(x) - 1\<close>.
\<close>

definition searchsorted :: "vec \<Rightarrow> real \<Rightarrow> nat" where
  "searchsorted xs v = length (takeWhile (\<lambda>x. x < v) xs)"

definition linear_at :: "vec \<Rightarrow> vec \<Rightarrow> real \<Rightarrow> real" where
  "linear_at xs ys v =
     (let hi = min (length xs - 1) (max 1 (searchsorted xs v));
          lo = hi - 1;
          slope = (ys ! hi - ys ! lo) / (xs ! hi - xs ! lo)
      in slope * (v - xs ! lo) + ys ! lo)"

definition interp1d :: "vec \<Rightarrow> vec \<Rightarrow> vec \<Rightarrow> error + vec" where
  "interp1d x y x_new =
     (if length x \<noteq> length y \<or> length x < 2 then Inl ValueError
      else (let ps = sort_key fst (zip x y); xs = map fst ps; ys = map snd ps
            in if (\<exists>v \<in> set x_new. v < hd xs \<or> last xs < v) then Inl ValueError
               else Inr (map (linear_at xs ys) x_new)))"

section \<open>\<open>calc_irf_radiation\<close> and \<open>calc_irf_excitation\<close>\<close>

text \<open>
  Both methods start the interpolation with the same test: \<open>self.w[0] > self.w[1]\<close>
  decides whether the grid is flipped. Reading \<open>self.w[1]\<close> raises \<open>IndexError\<close> on a
  grid of fewer than two points. The result is \<open>w_tmp\<close> and the flag \<open>flip\<close>.
\<close>

definition flip_grid :: "vec \<Rightarrow> error + (vec \<times> bool)" where
  "flip_grid ws =
     (if length ws < 2 then Inl IndexError
      else if ws ! 0 > ws ! 1 then Inr (flipud ws, True)
      else Inr (ws, False))"

text \<open>The body of the interpolation loop of \<open>calc_irf_radiation\<close> for one \<open>(i, j)\<close>.\<close>

definition rd_interpolate ::
  "hydrodynamic_data \<Rightarrow> vec \<Rightarrow> bool \<Rightarrow> vec \<Rightarrow> nat \<Rightarrow> nat \<Rightarrow> tensor \<Rightarrow> error + tensor" where
  "rd_interpolate self w_tmp flip irf_w i j rd_interp =
     (case get_row (rd_all self) i j of
        Inl e \<Rightarrow> Inl e
      | Inr row \<Rightarrow>
          (let rdTmp = (if flip then flipud row else row)
           in case interp1d w_tmp rdTmp irf_w of
                Inl e \<Rightarrow> Inl e
              | Inr vals \<Rightarrow> set_row rd_interp i j vals))"

text \<open>
  The body of the quadrature loop of \<open>calc_irf_radiation\<close> for one time sample
  \<open>(t_ind, t)\<close> and one \<open>(i, j)\<close>; the state is the pair of \<open>K\<close> and \<open>L\<close>.
\<close>

definition rd_irf_step ::
  "tensor \<Rightarrow> vec \<Rightarrow> nat \<times> real \<Rightarrow> nat \<Rightarrow> nat \<Rightarrow> tensor \<times> tensor \<Rightarrow> error + tensor \<times> tensor" where
  "rd_irf_step rd_interp irf_w tt i j KL =
     (case get_row rd_interp i j of
        Inl e \<Rightarrow> Inl e
      | Inr row \<Rightarrow>
          (let t = snd tt;
               tmpL = map2 (*) (map (\<lambda>r. 2 / pi * r) row) (map (\<lambda>om. sin (om * t)) irf_w);
               tmpK = map2 (*) (map (\<lambda>r. 2 / pi * r) row) (map (\<lambda>om. cos (om * t)) irf_w)
           in case set_elem3 (fst KL) i j (fst tt) (np_trapz tmpK irf_w) of
                Inl e \<Rightarrow> Inl e
              | Inr K' \<Rightarrow>
                  (case set_elem3 (snd KL) i j (fst tt) (np_trapz tmpL irf_w) of
                     Inl e \<Rightarrow> Inl e
                   | Inr L' \<Rightarrow> Inr (K', L'))))"

definition calc_irf_radiation ::
  "hydrodynamic_data \<Rightarrow> real \<Rightarrow> nat \<Rightarrow> nat \<Rightarrow> error + hydrodynamic_data" where
  "calc_irf_radiation self t_end n_t n_w =
     (let irf_t = linspace 0 t_end n_t
      in case np_min (w self) of
           Inl e \<Rightarrow> Inl e
         | Inr lo \<Rightarrow>
        (case np_max (w self) of
           Inl e \<Rightarrow> Inl e
         | Inr hi \<Rightarrow>
        (let irf_w = linspace lo hi n_w;
             L0 = zeros3 (shape0 (am_inf self)) (shape1 (am_inf self)) (length irf_t);
             K0 = zeros3 (shape0 (am_inf self)) (shape1 (am_inf self)) (length irf_t);
             n0 = shape0 (rd_all self);
             n1 = shape1 (rd_all self);
             rd_interp0 = zeros3 n0 n1 (length irf_w)
         in case flip_grid (w self) of
              Inl e \<Rightarrow> Inl e
            | Inr (w_tmp, flip) \<Rightarrow>
           (case for_each [0..<n0] (\<lambda>i. for_each [0..<n1]
                     (rd_interpolate self w_tmp flip irf_w i)) rd_interp0 of
              Inl e \<Rightarrow> Inl e
            | Inr rd_interp \<Rightarrow>
           (case for_each (enumerate 0 irf_t) (\<lambda>tt. for_each [0..<n0] (\<lambda>i. for_each [0..<n1]
                     (rd_irf_step rd_interp irf_w tt i))) (K0, L0) of
              Inl e \<Rightarrow> Inl e
            | Inr (K, L) \<Rightarrow>
                Inr (self\<lparr>rd_irf_t := irf_t, rd_irf_w := irf_w,
                          rd_irf_L := L, rd_irf_K := K\<rparr>))))))"

text \<open>
  The slices handed to the interpolation of \<open>calc_irf_excitation\<close> for one \<open>(i, j)\<close>:
  on a flipped grid the real slice is \<open>self.ex.re[i, j, :]\<close> and the imaginary slice is
  read from \<open>self.rd.im[i, j, :]\<close>, both reversed; otherwise they are
  \<open>self.ex.re[i, j, :]\<close> and \<open>self.ex.im[i, j, :]\<close>.
\<close>

definition ex_slices :: "hydrodynamic_data \<Rightarrow> bool \<Rightarrow> nat \<Rightarrow> nat \<Rightarrow> error + (vec \<times> vec)" where
  "ex_slices self flip i j =
     (if flip then
        (case get_row (ex_re self) i j of
           Inl e \<Rightarrow> Inl e
         | Inr re \<Rightarrow>
             (case rd_im self of
                None \<Rightarrow> Inl AttributeError
              | Some im_all \<Rightarrow>
                  (case get_row im_all i j of
                     Inl e \<Rightarrow> Inl e
                   | Inr im \<Rightarrow> Inr (flipud re, flipud im))))
      else
        (case get_row (ex_re self) i j of
           Inl e \<Rightarrow> Inl e
         | Inr re \<Rightarrow>
             (case get_row (ex_im self) i j of
                Inl e \<Rightarrow> Inl e
              | Inr im \<Rightarrow> Inr (re, im))))"

definition ex_interpolate ::
  "hydrodynamic_data \<Rightarrow> vec \<Rightarrow> bool \<Rightarrow> vec \<Rightarrow> nat \<Rightarrow> nat \<Rightarrow> tensor \<times> tensor
     \<Rightarrow> error + tensor \<times> tensor" where
  "ex_interpolate self w_tmp flip irf_w i j interp =
     (case ex_slices self flip i j of
        Inl e \<Rightarrow> Inl e
      | Inr (ex_tmp_re, ex_tmp_im) \<Rightarrow>
          (case interp1d w_tmp ex_tmp_re irf_w of
             Inl e \<Rightarrow> Inl e
           | Inr vals_re \<Rightarrow>
               (case interp1d w_tmp ex_tmp_im irf_w of
                  Inl e \<Rightarrow> Inl e
                | Inr vals_im \<Rightarrow>
                    (case set_row (fst interp) i j vals_re of
                       Inl e \<Rightarrow> Inl e
                     | Inr re' \<Rightarrow>
                         (case set_row (snd interp) i j vals_im of
                            Inl e \<Rightarrow> Inl e
                          | Inr im' \<Rightarrow> Inr (re', im'))))))"

definition ex_irf_step ::
  "tensor \<times> tensor \<Rightarrow> vec \<Rightarrow> nat \<times> real \<Rightarrow> nat \<Rightarrow> nat \<Rightarrow> tensor \<Rightarrow> error + tensor" where
  "ex_irf_step interp irf_w tt i j f =
     (case get_row (fst interp) i j of
        Inl e \<Rightarrow> Inl e
      | Inr row_re \<Rightarrow>
          (case get_row (snd interp) i j of
             Inl e \<Rightarrow> Inl e
           | Inr row_im \<Rightarrow>
               (let t = snd tt;
                    tmp = map2 (-) (map2 (*) row_re (map (\<lambda>om. cos (om * t)) irf_w))
                                   (map2 (*) row_im (map (\<lambda>om. sin (om * t)) irf_w));
                    tmp' = map (\<lambda>x. x * (1 / pi)) tmp
                in set_elem3 f i j (fst tt) (np_trapz tmp' irf_w))))"

definition calc_irf_excitation ::
  "hydrodynamic_data \<Rightarrow> real \<Rightarrow> nat \<Rightarrow> nat \<Rightarrow> error + hydrodynamic_data" where
  "calc_irf_excitation self t_length n_t n_w =
     (let irf_t = linspace (- t_length) t_length n_t
      in case np_min (w self) of
           Inl e \<Rightarrow> Inl e
         | Inr lo \<Rightarrow>
        (case np_max (w self) of
           Inl e \<Rightarrow> Inl e
         | Inr hi \<Rightarrow>
        (let irf_w = linspace lo hi n_w;
             n0 = shape0 (ex_mag self);
             n1 = shape1 (ex_mag self);
             f0 = zeros3 n0 n1 (length irf_t);
             ex_re_interp0 = zeros3 n0 n1 (length irf_w);
             ex_im_interp0 = zeros3 n0 n1 (length irf_w)
         in case flip_grid (w self) of
              Inl e \<Rightarrow> Inl e
            | Inr (w_tmp, flip) \<Rightarrow>
           (case for_each [0..<n0] (\<lambda>i. for_each [0..<n1]
                     (ex_interpolate self w_tmp flip irf_w i)) (ex_re_interp0, ex_im_interp0) of
              Inl e \<Rightarrow> Inl e
            | Inr interp \<Rightarrow>
           (case for_each (enumerate 0 irf_t) (\<lambda>tt. for_each [0..<n0] (\<lambda>i. for_each [0..<n1]
                     (ex_irf_step interp irf_w tt i))) f0 of
              Inl e \<Rightarrow> Inl e
            | Inr f \<Rightarrow>
                Inr (self\<lparr>ex_irf_t := irf_t, ex_irf_w := irf_w, ex_irf_f := f\<rparr>))))))"

section \<open>\<open>calc_ss_excitation\<close>\<close>

definition calc_ss_excitation ::
  "hydrodynamic_data \<Rightarrow> real \<Rightarrow> nat \<Rightarrow> nat \<Rightarrow> error + hydrodynamic_data" where
  "calc_ss_excitation self t_end n_t n_w =
     Inl (Exception ''The calc_ss_excitation function is not yet implemented'')"

section \<open>\<open>calc_ss_radiation\<close>\<close>

text \<open>
  The method calls three routines of the numerical libraries, \<open>numpy.linalg.svd\<close>,
  \<open>numpy.linalg.inv\<close> and \<open>scipy.linalg.expm\<close>. They are parameters of the model:
  \<open>svd\<close> returns the factors \<open>(u, s, vh)\<close> or raises \<open>LinAlgError\<close> when it does not
  converge, \<open>inv\<close> returns the inverse or raises \<open>LinAlgError\<close> on a singular matrix.
  Products and elementwise operations are written for operands whose shapes agree, as
  they do when the routines return arrays of the shapes they document; numpy's
  broadcasting of other shapes is not part of the model.
\<close>

record np_linalg =
  svd :: "mat \<Rightarrow> error + (mat \<times> vec \<times> mat)"
  inv :: "mat \<Rightarrow> error + mat"
  expm :: "mat \<Rightarrow> mat"

text \<open>
  Matrices: \<open>np.eye(n)\<close>, a scalar times a matrix, the difference and the elementwise
  product of two matrices of the same shape, a scalar plus a matrix, \<open>np.dot\<close> and
  \<open>scipy.linalg.hankel(c)\<close> (the square matrix with \<open>c[i + j]\<close> at \<open>(i, j)\<close> and zero below
  the anti-diagonal).
\<close>

definition eye :: "nat \<Rightarrow> mat" where
  "eye n = map (\<lambda>i. map (\<lambda>j. if i = j then 1 else 0) [0..<n]) [0..<n]"

definition smult :: "real \<Rightarrow> mat \<Rightarrow> mat" where
  "smult x a = map (map ((*) x)) a"

definition sadd :: "real \<Rightarrow> mat \<Rightarrow> mat" where
  "sadd x a = map (map ((+) x)) a"

definition mat_sub :: "mat \<Rightarrow> mat \<Rightarrow> mat" where
  "mat_sub a b = map2 (map2 (-)) a b"

definition mat_times :: "mat \<Rightarrow> mat \<Rightarrow> mat" where
  "mat_times a b = map2 (map2 (*)) a b"

definition dot :: "mat \<Rightarrow> mat \<Rightarrow> mat" where
  "dot a b = map (\<lambda>row. map (\<lambda>col. sum_list (map2 (*) row col)) (transpose b)) a"

definition hankel :: "vec \<Rightarrow> mat" where
  "hankel c =
     map (\<lambda>i. map (\<lambda>j. if i + j < length c then c ! (i + j) else 0) [0..<length c])
       [0..<length c]"

text \<open>A row vector as a \<open>1 \<times> n\<close> matrix and a column vector as an \<open>n \<times> 1\<close> matrix.\<close>

definition row_mat :: "vec \<Rightarrow> mat" where
  "row_mat v = [v]"

definition col_mat :: "vec \<Rightarrow> mat" where
  "col_mat v = map (\<lambda>x. [x]) v"

text \<open>\<open>np.linalg.norm\<close> of a vector and the mean of a vector.\<close>

definition np_norm :: "vec \<Rightarrow> real" where
  "np_norm v = sqrt (sum_list (map (\<lambda>x. x\<^sup>2) v))"

definition np_mean :: "vec \<Rightarrow> real" where
  "np_mean v = sum_list v / real (length v)"

text \<open>
  The value of a \<open>1 \<times> 1\<close> array, as the assignment \<open>k_ss_est[jj] = ...\<close> takes it; an
  array of another size cannot be stored in one element.
\<close>

definition item :: "mat \<Rightarrow> error + real" where
  "item m = (case m of [[x]] \<Rightarrow> Inr x | _ \<Rightarrow> Inl ValueError)"

fun map_err :: "('a \<Rightarrow> error + 'b) \<Rightarrow> 'a list \<Rightarrow> error + 'b list" where
  "map_err f [] = Inr []"
| "map_err f (x # xs) =
     (case f x of
        Inl e \<Rightarrow> Inl e
      | Inr y \<Rightarrow> (case map_err f xs of Inl e \<Rightarrow> Inl e | Inr ys \<Rightarrow> Inr (y # ys)))"

text \<open>
  The difference of two vectors of the same length (\<open>self.rd.irf.K[i,j,:] - k_ss_est\<close>);
  numpy raises \<open>ValueError\<close> when the shapes do not agree.
\<close>

definition vec_sub :: "vec \<Rightarrow> vec \<Rightarrow> error + vec" where
  "vec_sub x y = (if length x = length y then Inr (map2 (-) x y) else Inl ValueError)"

text \<open>
  The discrete realization of one candidate order \<open>ss\<close>: the Hankel matrix of the scaled
  kernel without its first sample, its singular value decomposition, and the matrices
  \<open>a\<close>, \<open>b\<close>, \<open>c\<close>, \<open>d\<close>. \<open>svh[0:ss].reshape(ss, 1)\<close> raises \<open>ValueError\<close> when there are
  fewer than \<open>ss\<close> singular values, as do the reshapes of \<open>v1[0, :]\<close> and \<open>u1[0, :]\<close> when
  those rows do not have \<open>ss\<close> entries; reading row \<open>0\<close> of an array without rows, and
  \<open>y[0]\<close> of an empty kernel, raise \<open>IndexError\<close>.
\<close>

definition discrete_realization ::
  "np_linalg \<Rightarrow> real \<Rightarrow> nat \<Rightarrow> vec \<Rightarrow> nat \<Rightarrow> error + (mat \<times> mat \<times> mat \<times> real)" where
  "discrete_realization lib dt numFreq Kij ss =
     (let y = map ((*) dt) Kij;
          h = hankel (tl y)
      in case svd lib h of
           Inl e \<Rightarrow> Inl e
         | Inr (u, svh, v) \<Rightarrow>
             (let u1 = map (take ss) (take (numFreq - 2) u);
                  v1 = map (take ss) (take (numFreq - 2) (transpose v));
                  u2 = map (take ss) (drop 1 (take (numFreq - 1) u))
              in if length (take ss svh) \<noteq> ss then Inl ValueError
                 else
                   (let sqs = map sqrt (take ss svh);
                        invss = map (\<lambda>x. 1 / x) sqs;
                        ubar = dot (transpose u1) u2;
                        a = mat_times ubar (dot (col_mat invss) (row_mat sqs))
                    in case v1 of
                         [] \<Rightarrow> Inl IndexError
                       | v1_0 # _ \<Rightarrow>
                           if length v1_0 \<noteq> ss then Inl ValueError
                           else
                             (let b = mat_times (col_mat v1_0) (col_mat sqs)
                              in case u1 of
                                   [] \<Rightarrow> Inl IndexError
                                 | u1_0 # _ \<Rightarrow>
                                     if length u1_0 \<noteq> ss then Inl ValueError
                                     else
                                       (let c = mat_times (row_mat u1_0) (row_mat sqs)
                                        in case y of
                                             [] \<Rightarrow> Inl IndexError
                                           | d # _ \<Rightarrow> Inr (a, b, c, d))))))"

text \<open>The bilinear transform of lines 297 to 307.\<close>

definition bilinear ::
  "np_linalg \<Rightarrow> real \<Rightarrow> nat \<Rightarrow> mat \<Rightarrow> mat \<Rightarrow> mat \<Rightarrow> real
     \<Rightarrow> error + (mat \<times> mat \<times> mat \<times> mat)" where
  "bilinear lib dt ss a b c d =
     (let CoeA = dt / 2;
          CoeB = 1;
          CoeC = - CoeA;
          CoeD = 1
      in case inv lib (mat_sub (smult CoeA (eye ss)) (smult CoeC a)) of
           Inl e \<Rightarrow> Inl e
         | Inr iidd \<Rightarrow>
             (let ac = dot (mat_sub (smult CoeB a) (smult CoeD (eye ss))) iidd;
                  bc = smult (CoeA * CoeB - CoeC * CoeD) (dot iidd b);
                  cc = dot c iidd;
                  dc = sadd d (smult CoeC (dot (dot c iidd) b))
              in Inr (ac, bc, cc, dc)))"

text \<open>
  What one pass of the \<open>while\<close> loop computes for the order \<open>ss\<close>: the continuous
  matrices, the impulse response \<open>k_ss_est\<close> of the realization at every sample index, and
  the fit quality \<open>R2T\<close>.
\<close>

record realization =
  ac :: mat
  bc :: mat
  cc :: mat
  dc :: mat
  k_ss_est :: vec
  R2T :: real

definition realize ::
  "np_linalg \<Rightarrow> real \<Rightarrow> nat \<Rightarrow> vec \<Rightarrow> real \<Rightarrow> nat \<Rightarrow> error + realization" where
  "realize lib dt numFreq Kij r2bt ss =
     (case discrete_realization lib dt numFreq Kij ss of
        Inl e \<Rightarrow> Inl e
      | Inr (a, b, c, d) \<Rightarrow>
     (case bilinear lib dt ss a b c d of
        Inl e \<Rightarrow> Inl e
      | Inr (ac', bc', cc', dc') \<Rightarrow>
     (case map_err (\<lambda>jj. item (dot (dot cc' (expm lib (smult (dt * real jj) ac'))) bc'))
             [0..<numFreq] of
        Inl e \<Rightarrow> Inl e
      | Inr est \<Rightarrow>
     (case vec_sub Kij est of
        Inl e \<Rightarrow> Inl e
      | Inr diff \<Rightarrow>
          (let R2TT = np_norm diff;
               R2T' = 1 - (R2TT / r2bt)\<^sup>2
           in Inr \<lparr>ac = ac', bc = bc', cc = cc', dc = dc', k_ss_est = est, R2T = R2T'\<rparr>)))))"

text \<open>
  The number of singular values the decomposition returns for the kernel; no order above
  it gets past the reshape.
\<close>

definition singular_count :: "np_linalg \<Rightarrow> real \<Rightarrow> vec \<Rightarrow> nat" where
  "singular_count lib dt Kij =
     (case svd lib (hankel (tl (map ((*) dt) Kij))) of
        Inl e \<Rightarrow> 0
      | Inr (u, svh, v) \<Rightarrow> length svh)"

text \<open>
  The \<open>while True\<close> loop, entered with \<open>ss = 2\<close>. It ends with the order reached and
  either the exception raised in the pass or the status and the realization of the last
  pass: status \<open>1\<close> when the fit quality meets the threshold, status \<open>2\<close> when the order
  equals \<open>max_order\<close>.
\<close>

function order_search ::
  "np_linalg \<Rightarrow> real \<Rightarrow> nat \<Rightarrow> vec \<Rightarrow> real \<Rightarrow> real \<Rightarrow> nat \<Rightarrow> nat
     \<Rightarrow> nat \<times> (error + nat \<times> realization)" where
  "order_search lib dt numFreq Kij r2bt r2_thresh max_order ss =
     (case realize lib dt numFreq Kij r2bt ss of
        Inl e \<Rightarrow> (ss, Inl e)
      | Inr r \<Rightarrow>
          if R2T r \<ge> r2_thresh then (ss, Inr (1, r))
          else if ss = max_order then (ss, Inr (2, r))
          else order_search lib dt numFreq Kij r2bt r2_thresh max_order (ss + 1))"
  by pat_completeness auto
termination
  by (relation "measure (\<lambda>(lib, dt, numFreq, Kij, r2bt, r2_thresh, max_order, ss).
                   Suc (singular_count lib dt Kij) - ss)")
     (auto simp: realize_def discrete_realization_def singular_count_def Let_def
           split: sum.splits prod.splits if_splits)

declare order_search.simps [simp del]

text \<open>
  Assignment to the leading block of a matrix held in a four-dimensional array,
  \<open>a[i, j, 0:nr, 0:nc] = blk\<close>. The slice is cut to the size of \<open>a[i, j]\<close>; \<open>blk\<close>, which
  has at least two rows or columns here, must have exactly the shape of the slice,
  otherwise numpy raises \<open>ValueError\<close>.
\<close>

definition write_block :: "mat \<Rightarrow> mat \<Rightarrow> mat" where
  "write_block tgt blk =
     map (\<lambda>r. if r < length blk then blk ! r @ drop (length (blk ! r)) (tgt ! r) else tgt ! r)
       [0..<length tgt]"

definition set_block :: "tensor4 \<Rightarrow> nat \<Rightarrow> nat \<Rightarrow> nat \<Rightarrow> nat \<Rightarrow> mat \<Rightarrow> error + tensor4" where
  "set_block a i j nr nc blk =
     (if i < length a \<and> j < length (a ! i) then
        (let tgt = a ! i ! j
         in if length blk = min nr (length tgt)
               \<and> (\<forall>row \<in> set blk. length row = min nc (shape1 tgt))
            then Inr (a[i := (a ! i)[j := write_block tgt blk]])
            else Inl ValueError)
      else Inl IndexError)"

text \<open>The first column \<open>m[:, 0]\<close> of a matrix.\<close>

definition col0 :: "mat \<Rightarrow> error + vec" where
  "col0 m = (if \<forall>row \<in> set m. row \<noteq> [] then Inr (map hd m) else Inl IndexError)"

text \<open>
  Lines 328 to 335: the results of the search for the pair \<open>(i, j)\<close> are written into the
  store, in the order of the source.
\<close>

definition write_realization ::
  "hydrodynamic_data \<Rightarrow> nat \<Rightarrow> nat \<Rightarrow> nat \<Rightarrow> nat \<Rightarrow> realization \<Rightarrow> error + hydrodynamic_data" where
  "write_realization self i j ss status r =
     (case set_block (rd_ss_A self) i j (length (ac r)) (length (ac r)) (ac r) of
        Inl e \<Rightarrow> Inl e
      | Inr A' \<Rightarrow>
     (case col0 (bc r) of
        Inl e \<Rightarrow> Inl e
      | Inr bc0 \<Rightarrow>
     (case set_block (rd_ss_B self) i j (length (bc r)) 1 (col_mat bc0) of
        Inl e \<Rightarrow> Inl e
      | Inr B' \<Rightarrow>
     (case cc r of
        [] \<Rightarrow> Inl IndexError
      | cc0 # _ \<Rightarrow>
     (case set_block (rd_ss_C self) i j 1 (shape1 (cc r)) (row_mat cc0) of
        Inl e \<Rightarrow> Inl e
      | Inr C' \<Rightarrow>
     (case set_row (rd_ss_D self) i j (concat (dc r)) of
        Inl e \<Rightarrow> Inl e
      | Inr D' \<Rightarrow>
     (case set_row (rd_ss_irk_bss self) i j (k_ss_est r) of
        Inl e \<Rightarrow> Inl e
      | Inr irk' \<Rightarrow>
     (case set_elem2 (rd_ss_rad_conv self) i j (real status) of
        Inl e \<Rightarrow> Inl e
      | Inr conv' \<Rightarrow>
     (case set_elem2 (rd_ss_r2t self) i j (R2T r) of
        Inl e \<Rightarrow> Inl e
      | Inr r2t' \<Rightarrow>
     (case set_elem2 (rd_ss_it self) i j (real ss) of
        Inl e \<Rightarrow> Inl e
      | Inr it' \<Rightarrow>
          Inr (self\<lparr>rd_ss_A := A', rd_ss_B := B', rd_ss_C := C', rd_ss_D := D',
                    rd_ss_irk_bss := irk', rd_ss_rad_conv := conv',
                    rd_ss_it := it', rd_ss_r2t := r2t'\<rparr>)))))))))))"

text \<open>
  The reference norm \<open>r2bt\<close> of a kernel, and the body of the loops over \<open>(i, j)\<close>: a
  pair whose reference norm is zero is left alone.
\<close>

definition reference_norm :: "vec \<Rightarrow> real" where
  "reference_norm Kij = np_norm (map (\<lambda>x. x - np_mean Kij) Kij)"

definition ss_pair ::
  "np_linalg \<Rightarrow> real \<Rightarrow> nat \<Rightarrow> nat \<Rightarrow> real \<Rightarrow> nat \<Rightarrow> nat \<Rightarrow> hydrodynamic_data
     \<Rightarrow> error + hydrodynamic_data" where
  "ss_pair lib dt numFreq max_order r2_thresh i j self =
     (case get_row (rd_irf_K self) i j of
        Inl e \<Rightarrow> Inl e
      | Inr Kij \<Rightarrow>
          (let r2bt = reference_norm Kij
           in if r2bt \<noteq> 0 then
                (case order_search lib dt numFreq Kij r2bt r2_thresh max_order 2 of
                   (ss, Inl e) \<Rightarrow> Inl e
                 | (ss, Inr (status, r)) \<Rightarrow> write_realization self i j ss status r)
              else Inr self))"

text \<open>
  \<open>calc_ss_radiation\<close>. Reading \<open>self.rd.irf.t[2]\<close> raises \<open>IndexError\<close> on a time grid
  of fewer than three points. The containers have six rows whatever the first dimension of
  \<open>am.inf\<close> is.
\<close>

definition calc_ss_radiation ::
  "np_linalg \<Rightarrow> hydrodynamic_data \<Rightarrow> nat \<Rightarrow> real \<Rightarrow> error + hydrodynamic_data" where
  "calc_ss_radiation lib self max_order r2_thresh =
     (if length (rd_irf_t self) < 3 then Inl IndexError
      else
        (let dt = rd_irf_t self ! 2 - rd_irf_t self ! 1;
             numFreq = length (rd_irf_t self);
             n1 = shape1 (am_inf self);
             self0 = self\<lparr>rd_ss_A := zeros4 6 n1 max_order max_order,
                          rd_ss_B := zeros4 6 n1 max_order 1,
                          rd_ss_C := zeros4 6 n1 1 max_order,
                          rd_ss_D := zeros3 6 n1 1,
                          rd_ss_irk_bss := zeros3 6 n1 numFreq,
                          rd_ss_rad_conv := zeros2 6 n1,
                          rd_ss_it := zeros2 6 n1,
                          rd_ss_r2t := zeros2 6 n1\<rparr>
         in for_each [0..<shape0 (am_inf self)] (\<lambda>i. for_each [0..<shape1 (am_inf self)]
              (ss_pair lib dt numFreq max_order r2_thresh i)) self0))"

section \<open>The quadrature as the specification words it\<close>

text \<open>
  The specification describes the impulse response functions by formulas. These
  definitions follow its words, to be compared with the methods above.
  \<open>uniform_grid a b n\<close> is \<open>n\<close> points linearly spaced on \<open>[a, b]\<close>;
  \<open>trapezoid f xs\<close> is the trapezoidal quadrature of the integrand \<open>f\<close> over the grid
  \<open>xs\<close>; \<open>piecewise_linear ps\<close> is the piecewise-linear function through the nodes
  \<open>ps\<close>, given in ascending order; \<open>ascending_nodes ws ys\<close> pairs a grid with the
  coefficients sampled along it, reversing both when the grid is descending.
\<close>

definition uniform_grid :: "real \<Rightarrow> real \<Rightarrow> nat \<Rightarrow> vec" where
  "uniform_grid a b n = map (\<lambda>k. a + real k * (b - a) / real (n - 1)) [0..<n]"

fun trapezoid :: "(real \<Rightarrow> real) \<Rightarrow> vec \<Rightarrow> real" where
  "trapezoid f (a # b # xs) = (b - a) * (f a + f b) / 2 + trapezoid f (b # xs)"
| "trapezoid f xs = 0"

fun piecewise_linear :: "(real \<times> real) list \<Rightarrow> real \<Rightarrow> real" where
  "piecewise_linear (p # q # ps) v =
     (if v \<le> fst q \<or> ps = []
      then snd p + (snd q - snd p) / (fst q - fst p) * (v - fst p)
      else piecewise_linear (q # ps) v)"
| "piecewise_linear ps v = 0"

definition ascending_nodes :: "vec \<Rightarrow> vec \<Rightarrow> (real \<times> real) list" where
  "ascending_nodes ws ys = (if sorted_wrt (>) ws then zip (rev ws) (rev ys) else zip ws ys)"

text \<open>
  The store equivalent to one with a descending grid: the grid and every coefficient
  slice sampled along it reversed. The tensors \<open>calc_irf_radiation\<close> produces.
\<close>

definition ascending_equivalent :: "hydrodynamic_data \<Rightarrow> hydrodynamic_data" where
  "ascending_equivalent self =
     self\<lparr>w := rev (w self), ex_re := map (map rev) (ex_re self),
          ex_im := map (map rev) (ex_im self), rd_all := map (map rev) (rd_all self)\<rparr>"

definition rd_irf_outputs :: "hydrodynamic_data \<Rightarrow> vec \<times> vec \<times> tensor \<times> tensor" where
  "rd_irf_outputs self = (rd_irf_t self, rd_irf_w self, rd_irf_K self, rd_irf_L self)"

text \<open>
  A three-dimensional array of shape \<open>l \<times> m \<times> n\<close>, and a grid that is strictly
  monotonic in one of the two directions.
\<close>

definition has_shape3 :: "tensor \<Rightarrow> nat \<Rightarrow> nat \<Rightarrow> nat \<Rightarrow> bool" where
  "has_shape3 a l m n \<longleftrightarrow>
     length a = l \<and> (\<forall>r \<in> set a. length r = m \<and> (\<forall>v \<in> set r. length v = n))"

definition strictly_monotonic :: "vec \<Rightarrow> bool" where
  "strictly_monotonic ws \<longleftrightarrow> sorted_wrt (<) ws \<or> sorted_wrt (>) ws"

section \<open>Notions used in the statements about \<open>calc_ss_radiation\<close>\<close>

text \<open>
  The shapes the library routines return: for a square matrix \<open>h\<close>, \<open>svd\<close> gives a
  square \<open>u\<close> of the same size and as many singular values; \<open>inv\<close> gives a square matrix
  with as many rows as its argument.
\<close>

definition linalg_shapes :: "np_linalg \<Rightarrow> bool" where
  "linalg_shapes lib \<longleftrightarrow>
     (\<forall>h u s v. svd lib h = Inr (u, s, v) \<longrightarrow>
        length u = length h \<and> (\<forall>row \<in> set u. length row = length h) \<and> length s = length h)
   \<and> (\<forall>m m'. inv lib m = Inr m' \<longrightarrow>
        length m' = length m \<and> (\<forall>row \<in> set m'. length row = length m))"

text \<open>\<open>a[i, j] = x\<close> on nested lists, whatever \<open>x\<close> is.\<close>

definition upd2 :: "'a list list \<Rightarrow> nat \<Rightarrow> nat \<Rightarrow> 'a \<Rightarrow> 'a list list" where
  "upd2 a i j x = a[i := (a ! i)[j := x]]"

text \<open>
  The containers of the state space realization as \<open>calc_ss_radiation\<close> allocates them,
  for \<open>n1\<close> columns, the maximum order \<open>mo\<close> and \<open>nf\<close> time samples.
\<close>

definition containers :: "hydrodynamic_data \<Rightarrow> nat \<Rightarrow> bool" where
  "containers st n1 \<longleftrightarrow>
     length (rd_ss_A st) = 6 \<and> (\<forall>i<6. length (rd_ss_A st ! i) = n1)
   \<and> length (rd_ss_B st) = 6 \<and> (\<forall>i<6. length (rd_ss_B st ! i) = n1)
   \<and> length (rd_ss_C st) = 6 \<and> (\<forall>i<6. length (rd_ss_C st ! i) = n1)
   \<and> length (rd_ss_D st) = 6 \<and> (\<forall>i<6. length (rd_ss_D st ! i) = n1)
   \<and> length (rd_ss_irk_bss st) = 6 \<and> (\<forall>i<6. length (rd_ss_irk_bss st ! i) = n1)
   \<and> length (rd_ss_rad_conv st) = 6 \<and> (\<forall>i<6. length (rd_ss_rad_conv st ! i) = n1)
   \<and> length (rd_ss_it st) = 6 \<and> (\<forall>i<6. length (rd_ss_it st ! i) = n1)
   \<and> length (rd_ss_r2t st) = 6 \<and> (\<forall>i<6. length (rd_ss_r2t st ! i) = n1)"

text \<open>
  The entries of the pair \<open>(i, j)\<close> in a store: all zero, as allocated, or as written
  from the status \<open>status\<close>, the order \<open>ss\<close> and the realization \<open>r\<close>.
\<close>

definition slot_zero :: "hydrodynamic_data \<Rightarrow> nat \<Rightarrow> nat \<Rightarrow> nat \<Rightarrow> nat \<Rightarrow> bool" where
  "slot_zero st mo nf i j \<longleftrightarrow>
     rd_ss_A st ! i ! j = zeros2 mo mo
   \<and> rd_ss_B st ! i ! j = zeros2 mo 1
   \<and> rd_ss_C st ! i ! j = zeros2 1 mo
   \<and> rd_ss_D st ! i ! j = zeros1 1
   \<and> rd_ss_irk_bss st ! i ! j = zeros1 nf
   \<and> rd_ss_rad_conv st ! i ! j = 0
   \<and> rd_ss_it st ! i ! j = 0
   \<and> rd_ss_r2t st ! i ! j = 0"

definition slot_written ::
  "hydrodynamic_data \<Rightarrow> nat \<Rightarrow> nat \<Rightarrow> nat \<Rightarrow> nat \<Rightarrow> nat \<Rightarrow> nat \<Rightarrow> realization \<Rightarrow> bool" where
  "slot_written st mo nf i j ss status r \<longleftrightarrow>
     rd_ss_A st ! i ! j = write_block (zeros2 mo mo) (ac r)
   \<and> length (ac r) \<le> mo \<and> (\<forall>row \<in> set (ac r). length row = length (ac r))
   \<and> rd_ss_B st ! i ! j = write_block (zeros2 mo 1) (col_mat (map hd (bc r)))
   \<and> length (bc r) \<le> mo
   \<and> rd_ss_C st ! i ! j = write_block (zeros2 1 mo) (row_mat (hd (cc r)))
   \<and> cc r \<noteq> [] \<and> shape1 (cc r) \<le> mo
   \<and> rd_ss_D st ! i ! j = concat (dc r)
   \<and> rd_ss_irk_bss st ! i ! j = k_ss_est r
   \<and> rd_ss_rad_conv st ! i ! j = real status
   \<and> rd_ss_it st ! i ! j = real ss
   \<and> rd_ss_r2t st ! i ! j = R2T r"

text \<open>
  What the loops have done for the pair \<open>(i, j)\<close> once its turn has passed: its kernel
  could be read, and either the reference norm is zero and the entries are still zero, or
  the search ended with a status and the entries are the ones written from it. Only rows
  below \<open>6\<close> exist in the containers.
\<close>

definition pair_done ::
  "np_linalg \<Rightarrow> tensor \<Rightarrow> real \<Rightarrow> nat \<Rightarrow> nat \<Rightarrow> real \<Rightarrow> hydrodynamic_data \<Rightarrow> nat \<Rightarrow> nat \<Rightarrow> bool" where
  "pair_done lib K dt nf mo thr st i j \<longleftrightarrow>
     (\<exists>Kij. get_row K i j = Inr Kij
        \<and> (reference_norm Kij = 0 \<and> (i < 6 \<longrightarrow> slot_zero st mo nf i j)
           \<or> reference_norm Kij \<noteq> 0 \<and> i < 6
             \<and> (\<exists>ss status r.
                   order_search lib dt nf Kij (reference_norm Kij) thr mo 2 = (ss, Inr (status, r))
                 \<and> slot_written st mo nf i j ss status r)))"

text \<open>
  The state matrices of the pair \<open>(i, j)\<close> sit in containers sized to \<open>mo\<close>, and
  every entry outside the leading block of size \<open>n\<close> is zero.
\<close>

definition leading_block :: "hydrodynamic_data \<Rightarrow> nat \<Rightarrow> nat \<Rightarrow> nat \<Rightarrow> nat \<Rightarrow> bool" where
  "leading_block st mo i j n \<longleftrightarrow>
     length (rd_ss_A st ! i ! j) = mo \<and> (\<forall>row \<in> set (rd_ss_A st ! i ! j). length row = mo)
   \<and> length (rd_ss_B st ! i ! j) = mo \<and> (\<forall>row \<in> set (rd_ss_B st ! i ! j). length row = 1)
   \<and> length (rd_ss_C st ! i ! j) = 1 \<and> (\<forall>row \<in> set (rd_ss_C st ! i ! j). length row = mo)
   \<and> (\<forall>r<mo. \<forall>c<mo. n \<le> r \<or> n \<le> c \<longrightarrow> rd_ss_A st ! i ! j ! r ! c = 0)
   \<and> (\<forall>r<mo. n \<le> r \<longrightarrow> rd_ss_B st ! i ! j ! r ! 0 = 0)
   \<and> (\<forall>c<mo. n \<le> c \<longrightarrow> rd_ss_C st ! i ! j ! 0 ! c = 0)"

text \<open>The realization the example reaches at order \<open>2\<close>.\<close>

definition example_realization :: realization where
  "example_realization =
     \<lparr>ac = [[- 2, 0], [4, - 2]], bc = [[2], [- 2]], cc = [[- 2, 2]], dc = [[1]],
      k_ss_est = [- 8, 8 * exp (- 2), 24 * exp (- 4)],
      R2T = 1 - (np_norm [8, - (8 * exp (- 2)), 1 - 24 * exp (- 4)]
                   / reference_norm [0, 0, 1])\<^sup>2\<rparr>"

section \<open>Example stores\<close>

text \<open>
  A one-body store with a single coefficient entry sampled on the ascending grid
  \<open>[1, 2]\<close>, and the same data on the descending grid \<open>[2, 1]\<close>. Nothing has set
  \<open>rd.im\<close>; the derived fields are still empty.
\<close>

definition example_store :: hydrodynamic_data where
  "example_store =
     \<lparr>name = ''body'', w = [1, 2], am_inf = [[0]],
      ex_mag = [[[2, 1]]], ex_re = [[[2, 1]]], ex_im = [[[4, 3]]],
      rd_all = [[[2, 1]]], rd_im = None,
      ex_irf_t = [], ex_irf_w = [], ex_irf_f = [],
      rd_irf_t = [], rd_irf_w = [], rd_irf_L = [], rd_irf_K = [],
      rd_ss_A = [], rd_ss_B = [], rd_ss_C = [], rd_ss_D = [], rd_ss_irk_bss = [],
      rd_ss_rad_conv = [], rd_ss_it = [], rd_ss_r2t = []\<rparr>"

definition example_descending :: hydrodynamic_data where
  "example_descending =
     example_store\<lparr>w := [2, 1], ex_re := [[[1, 2]]], ex_im := [[[3, 4]]], rd_all := [[[1, 2]]]\<rparr>"

text \<open>
  The library routines on the matrices the example below meets: the singular value
  decomposition of the exchange matrix, the inverse of a \<open>2 \<times> 2\<close> matrix, and the
  exponential of a lower triangular \<open>2 \<times> 2\<close> matrix with equal diagonal entries. On any
  other matrix \<open>svd\<close> and \<open>inv\<close> raise, and \<open>expm\<close> is of no interest.
\<close>

definition inv2 :: "mat \<Rightarrow> error + mat" where
  "inv2 m =
     (case m of
        [[p, q], [r, s]] \<Rightarrow>
          if p * s - q * r = 0 then Inl LinAlgError
          else Inr [[s / (p * s - q * r), - q / (p * s - q * r)],
                    [- r / (p * s - q * r), p / (p * s - q * r)]]
      | _ \<Rightarrow> Inl LinAlgError)"

definition expm2 :: "mat \<Rightarrow> mat" where
  "expm2 m =
     (case m of
        [[p, q], [r, s]] \<Rightarrow>
          if q = 0 \<and> p = s then [[exp p, 0], [r * exp p, exp p]] else eye 2
      | _ \<Rightarrow> eye (length m))"

definition example_linalg :: np_linalg where
  "example_linalg =
     \<lparr>svd = (\<lambda>h. if h = [[0, 1], [1, 0]]
                  then Inr ([[0, 1], [1, 0]], [1, 1], [[1, 0], [0, 1]])
                  else Inl LinAlgError),
      inv = inv2,
      expm = expm2\<rparr>"

text \<open>
  A store after \<open>calc_irf_radiation\<close>: three time samples with step \<open>1\<close>, and two
  kernels, \<open>[0, 0, 1]\<close> and the constant kernel \<open>[5, 5, 5]\<close>.
\<close>

definition example_irf_store :: hydrodynamic_data where
  "example_irf_store =
     example_store\<lparr>am_inf := [[0, 0]], rd_irf_t := [0, 1, 2],
                   rd_irf_K := [[[0, 0, 1], [5, 5, 5]]]\<rparr>"

text \<open>
  The same store after \<open>calc_ss_radiation\<close> with \<open>max_order = 2\<close> and the threshold
  \<open>0.95\<close>: the first pair holds the realization of order \<open>2\<close> with status \<open>2\<close>, the
  second pair, whose kernel is constant, holds zeros.
\<close>

definition example_ss_store :: hydrodynamic_data where
  "example_ss_store =
     example_irf_store
       \<lparr>rd_ss_A := upd2 (zeros4 6 2 2 2) 0 0 [[- 2, 0], [4, - 2]],
        rd_ss_B := upd2 (zeros4 6 2 2 1) 0 0 [[2], [- 2]],
        rd_ss_C := upd2 (zeros4 6 2 1 2) 0 0 [[- 2, 2]],
        rd_ss_D := upd2 (zeros3 6 2 1) 0 0 [1],
        rd_ss_irk_bss := upd2 (zeros3 6 2 3) 0 0 (k_ss_est example_realization),
        rd_ss_rad_conv := upd2 (zeros2 6 2) 0 0 2,
        rd_ss_it := upd2 (zeros2 6 2) 0 0 2,
        rd_ss_r2t := upd2 (zeros2 6 2) 0 0 (R2T example_realization)\<rparr>"

text \<open>The descending store after some caller has set \<open>rd.im\<close> to zeros.\<close>

definition example_descending_rd_im :: hydrodynamic_data where
  "example_descending_rd_im = example_descending\<lparr>rd_im := Some [[[0, 0]]]\<rparr>"

section \<open>Properties\<close>

text \<open>
  C7. For every store and every argument, \<open>calc_ss_excitation\<close> raises: it never returns a
  store, so no partial result is written. The exception is Python's plain \<open>Exception\<close>
  carrying the message that the function is not yet implemented; this is the error the
  specification names UnimplementedError.
\<close>

theorem calc_ss_excitation_raises:
  "calc_ss_excitation self t_end n_t n_w =
     Inl (Exception ''The calc_ss_excitation function is not yet implemented'')
   \<and> (\<forall>self'. calc_ss_excitation self t_end n_t n_w \<noteq> Inr self')"
  by (simp add: calc_ss_excitation_def)

section \<open>Loops, arrays and quadrature\<close>

lemma realize_order_bound:
  "realize lib dt numFreq Kij r2bt ss = Inr r \<Longrightarrow> ss \<le> singular_count lib dt Kij"
  by (auto simp: realize_def discrete_realization_def singular_count_def Let_def
           split: sum.splits prod.splits if_splits)

lemma for_each_append:
  "for_each (xs @ ys) body s =
     (case for_each xs body s of Inl e \<Rightarrow> Inl e | Inr s' \<Rightarrow> for_each ys body s')"
  by (induction xs arbitrary: s) (auto split: sum.splits)

lemma for_each_map: "for_each (map g xs) body s = for_each xs (\<lambda>x. body (g x)) s"
  by (induction xs arbitrary: s) (auto split: sum.splits)

lemma for_each_product:
  "for_each xs (\<lambda>x. for_each ys (f x)) s =
     for_each (List.product xs ys) (\<lambda>p. f (fst p) (snd p)) s"
proof (induction xs arbitrary: s)
  case Nil
  show ?case by simp
next
  case (Cons x xs)
  show ?case
    by (simp add: for_each_append for_each_map Cons.IH cong: sum.case_cong)
qed

lemma for_each_rule_aux:
  assumes "P pre s"
    and "\<And>pre' x s. P pre' s \<Longrightarrow> x \<in> set xs \<Longrightarrow> \<exists>s'. body x s = Inr s' \<and> P (pre' @ [x]) s'"
  shows "\<exists>s'. for_each xs body s = Inr s' \<and> P (pre @ xs) s'"
  using assms
proof (induction xs arbitrary: pre s)
  case Nil
  then show ?case by simp
next
  case (Cons x xs)
  from Cons.prems obtain s1 where s1: "body x s = Inr s1" "P (pre @ [x]) s1"
    by (meson list.set_intros(1))
  have "\<exists>s'. for_each xs body s1 = Inr s' \<and> P ((pre @ [x]) @ xs) s'"
    by (rule Cons.IH [OF s1(2)]) (use Cons.prems(2) in auto)
  with s1 show ?case by simp
qed

lemma for_each_rule:
  assumes "P [] s"
    and "\<And>pre x s. P pre s \<Longrightarrow> x \<in> set xs \<Longrightarrow> \<exists>s'. body x s = Inr s' \<and> P (pre @ [x]) s'"
  shows "\<exists>s'. for_each xs body s = Inr s' \<and> P xs s'"
  using for_each_rule_aux [of P "[]" s xs body] assms by simp

lemma np_min_eq: "xs \<noteq> [] \<Longrightarrow> np_min xs = Inr (Min (set xs))"
  by (cases xs) (simp_all add: np_min_def Min.set_eq_fold [symmetric])

lemma np_max_eq: "xs \<noteq> [] \<Longrightarrow> np_max xs = Inr (Max (set xs))"
  by (cases xs) (simp_all add: np_max_def Max.set_eq_fold [symmetric])

lemma linspace_uniform: "linspace a b n = uniform_grid a b n"
proof -
  have "(map (\<lambda>k. a + real k * ((b - a) / real (n - 1))) [0..<n])[n - 1 := b]
        = map (\<lambda>k. a + real k * (b - a) / real (n - 1)) [0..<n]" if "2 \<le> n"
  proof (rule nth_equalityI)
    show "length ((map (\<lambda>k. a + real k * ((b - a) / real (n - 1))) [0..<n])[n - 1 := b])
          = length (map (\<lambda>k. a + real k * (b - a) / real (n - 1)) [0..<n])" by simp
  next
    fix i assume "i < length ((map (\<lambda>k. a + real k * ((b - a) / real (n - 1))) [0..<n])[n - 1 := b])"
    then have i: "i < n" by simp
    show "(map (\<lambda>k. a + real k * ((b - a) / real (n - 1))) [0..<n])[n - 1 := b] ! i
          = map (\<lambda>k. a + real k * (b - a) / real (n - 1)) [0..<n] ! i"
    proof (cases "i = n - 1")
      case True
      with that i show ?thesis by (simp add: nth_list_update)
    next
      case False
      with i show ?thesis by (simp add: nth_list_update)
    qed
  qed
  then show ?thesis
    by (cases "n = 0"; cases "n = 1") (simp_all add: linspace_def uniform_grid_def Let_def)
qed

lemma length_uniform_grid [simp]: "length (uniform_grid a b n) = n"
  by (simp add: uniform_grid_def)

lemma uniform_grid_bounds:
  assumes "a \<le> b" "v \<in> set (uniform_grid a b n)"
  shows "a \<le> v \<and> v \<le> b"
proof -
  from assms(2) obtain k where k: "k < n" "v = a + real k * (b - a) / real (n - 1)"
    by (auto simp: uniform_grid_def)
  show ?thesis
  proof (cases "n = 1")
    case True
    with k have "v = a" by simp
    with assms(1) show ?thesis by simp
  next
    case False
    with k have n: "0 < real (n - 1)" "real k \<le> real (n - 1)" by auto
    have "0 \<le> real k * (b - a) / real (n - 1)"
      using assms(1) n by simp
    moreover have "real k * (b - a) / real (n - 1) \<le> b - a"
    proof -
      have "real k * (b - a) \<le> real (n - 1) * (b - a)"
        using n(2) assms(1) by (intro mult_right_mono) auto
      then show ?thesis using n(1) by (simp add: field_simps)
    qed
    ultimately show ?thesis unfolding k(2) by auto
  qed
qed

lemma np_trapz_map: "np_trapz (map f xs) xs = trapezoid f xs"
proof (induction f xs rule: trapezoid.induct)
  case (1 f a b xs)
  then show ?case by (simp add: np_trapz_def np_diff_def algebra_simps)
qed (simp_all add: np_trapz_def np_diff_def)

lemma map2_map_same: "map2 h (map f xs) (map g xs) = map (\<lambda>x. h (f x) (g x)) xs"
  by (induction xs) simp_all

lemma linear_at_piecewise:
  assumes "sorted_wrt (<) xs" "length xs = length ys" "2 \<le> length xs"
  shows "linear_at xs ys v = piecewise_linear (zip xs ys) v"
  using assms
proof (induction xs arbitrary: ys)
  case Nil
  then show ?case by simp
next
  case (Cons x0 xs1)
  then obtain x1 xs' where xs1: "xs1 = x1 # xs'" by (cases xs1) auto
  from Cons.prems obtain y0 y1 ys' where ys: "ys = y0 # y1 # ys'"
    unfolding xs1 by (cases ys; cases "tl ys") auto
  from Cons.prems have lt: "x0 < x1" and srt: "sorted_wrt (<) (x1 # xs')"
    and len: "length xs' = length ys'"
    unfolding xs1 ys by auto
  show ?case
  proof (cases "v \<le> x1 \<or> xs' = []")
    case True
    have "min (Suc (length xs')) (max 1 (searchsorted (x0 # x1 # xs') v)) = 1"
      using True lt by (auto simp: searchsorted_def)
    then show ?thesis
      using True len unfolding xs1 ys by (auto simp add: linear_at_def Let_def)
  next
    case False
    then have v: "x1 < v" and ne: "xs' \<noteq> []" by auto
    define h where "h = min (length xs') (max 1 (searchsorted (x1 # xs') v))"
    have h1: "1 \<le> h" using ne unfolding h_def by (cases xs') auto
    have ss: "searchsorted (x0 # x1 # xs') v = Suc (searchsorted (x1 # xs') v)"
      using v lt by (simp add: searchsorted_def)
    have s1: "1 \<le> searchsorted (x1 # xs') v"
      using v by (simp add: searchsorted_def)
    have hi: "min (Suc (length xs')) (max 1 (searchsorted (x0 # x1 # xs') v)) = Suc h"
      unfolding ss h_def using s1 by (simp add: min_def max_def)
    have IH: "linear_at (x1 # xs') (y1 # ys') v = piecewise_linear (zip (x1 # xs') (y1 # ys')) v"
      using Cons.IH [of "y1 # ys'"] srt len ne unfolding xs1 by (cases xs') auto
    have "linear_at (x0 # x1 # xs') (y0 # y1 # ys') v = linear_at (x1 # xs') (y1 # ys') v"
    proof -
      obtain h' where h': "h = Suc h'" using h1 by (cases h) auto
      have L: "linear_at (x0 # x1 # xs') (y0 # y1 # ys') v =
            ((y0 # y1 # ys') ! Suc h - (y0 # y1 # ys') ! h) / ((x0 # x1 # xs') ! Suc h - (x0 # x1 # xs') ! h)
              * (v - (x0 # x1 # xs') ! h) + (y0 # y1 # ys') ! h"
        using hi by (simp add: linear_at_def Let_def)
      have R: "linear_at (x1 # xs') (y1 # ys') v =
            ((y1 # ys') ! h - (y1 # ys') ! (h - 1)) / ((x1 # xs') ! h - (x1 # xs') ! (h - 1))
              * (v - (x1 # xs') ! (h - 1)) + (y1 # ys') ! (h - 1)"
        using h_def by (simp add: linear_at_def Let_def)
      show ?thesis unfolding L R h' by simp
    qed
    moreover have "ys' \<noteq> []" using ne len by auto
    ultimately show ?thesis using IH False unfolding xs1 ys by simp
  qed
qed

lemma sort_nodes_id:
  assumes "sorted_wrt (<) xs" "length xs = length ys"
  shows "sort_key fst (zip xs ys) = zip xs ys"
proof (rule sort_key_id_if_sorted)
  have "sorted xs" using assms(1) by (simp add: strict_sorted_imp_sorted)
  with assms(2) show "sorted (map fst (zip xs ys))" by simp
qed

lemma interp1d_ascending:
  assumes "sorted_wrt (<) xs" "length xs = length ys" "2 \<le> length xs"
    and "\<forall>v \<in> set vs. hd xs \<le> v \<and> v \<le> last xs"
  shows "interp1d xs ys vs = Inr (map (piecewise_linear (zip xs ys)) vs)"
proof -
  have "\<not> (\<exists>v \<in> set vs. v < hd xs \<or> last xs < v)"
    using assms(4) by force
  then show ?thesis
    using assms(1-3)
    by (simp add: interp1d_def Let_def sort_nodes_id linear_at_piecewise)
qed

lemma has_shape3_nth:
  "has_shape3 a l m n \<longleftrightarrow>
     length a = l \<and> (\<forall>i<l. length (a ! i) = m \<and> (\<forall>j<m. length (a ! i ! j) = n))"
  unfolding has_shape3_def by (auto simp: all_set_conv_all_nth)

lemma has_shape3_zeros3: "has_shape3 (zeros3 l m n) l m n"
  by (simp add: has_shape3_nth zeros3_def zeros2_def zeros1_def)

lemma zeros3_nth: "i < l \<Longrightarrow> j < m \<Longrightarrow> k < n \<Longrightarrow> zeros3 l m n ! i ! j ! k = 0"
  by (simp add: zeros3_def zeros2_def zeros1_def)

lemma get_row_ok:
  "has_shape3 a l m n \<Longrightarrow> i < l \<Longrightarrow> j < m \<Longrightarrow> get_row a i j = Inr (a ! i ! j)"
  by (simp add: has_shape3_nth get_row_def)

lemma set_elem3_ok:
  assumes "has_shape3 a l m n" "i < l" "j < m" "k < n"
  shows "\<exists>a'. set_elem3 a i j k x = Inr a' \<and> has_shape3 a' l m n \<and>
           (\<forall>i'<l. \<forall>j'<m. \<forall>k'<n.
              a' ! i' ! j' ! k' = (if i' = i \<and> j' = j \<and> k' = k then x else a ! i' ! j' ! k'))"
proof -
  let ?a' = "a[i := (a ! i)[j := (a ! i ! j)[k := x]]]"
  from assms have eq: "set_elem3 a i j k x = Inr ?a'"
    by (simp add: has_shape3_nth set_elem3_def)
  have sh: "has_shape3 ?a' l m n"
    using assms by (auto simp: has_shape3_nth nth_list_update)
  have "?a' ! i' ! j' ! k' = (if i' = i \<and> j' = j \<and> k' = k then x else a ! i' ! j' ! k')"
    if "i' < l" "j' < m" "k' < n" for i' j' k'
    using assms that by (auto simp: has_shape3_nth nth_list_update)
  with eq sh show ?thesis by blast
qed

lemma set_row_ok:
  assumes "has_shape3 a l m n" "i < l" "j < m" "length v = n"
  shows "\<exists>a'. set_row a i j v = Inr a' \<and> has_shape3 a' l m n \<and>
           (\<forall>i'<l. \<forall>j'<m. a' ! i' ! j' = (if i' = i \<and> j' = j then v else a ! i' ! j'))"
proof -
  let ?a' = "a[i := (a ! i)[j := v]]"
  from assms have eq: "set_row a i j v = Inr ?a'"
    by (simp add: has_shape3_nth set_row_def)
  have sh: "has_shape3 ?a' l m n"
    using assms by (auto simp: has_shape3_nth nth_list_update)
  have "?a' ! i' ! j' = (if i' = i \<and> j' = j then v else a ! i' ! j')"
    if "i' < l" "j' < m" for i' j'
    using assms that by (auto simp: has_shape3_nth nth_list_update)
  with eq sh show ?thesis by blast
qed

text \<open>The interpolation loop of \<open>calc_irf_radiation\<close>.\<close>

lemma rd_interpolate_loop:
  assumes rect: "has_shape3 (rd_all self) n0 n1 (length w_tmp)"
    and asc: "sorted_wrt (<) w_tmp" "2 \<le> length w_tmp"
    and bounds: "\<forall>v \<in> set irf_w. hd w_tmp \<le> v \<and> v \<le> last w_tmp"
  shows "\<exists>R. for_each [0..<n0] (\<lambda>i. for_each [0..<n1]
                 (rd_interpolate self w_tmp flip irf_w i)) (zeros3 n0 n1 (length irf_w)) = Inr R
           \<and> has_shape3 R n0 n1 (length irf_w)
           \<and> (\<forall>i<n0. \<forall>j<n1. R ! i ! j =
                 map (piecewise_linear (zip w_tmp
                        (if flip then rev (rd_all self ! i ! j) else rd_all self ! i ! j))) irf_w)"
proof -
  define y where "y = (\<lambda>i j. if flip then rev (rd_all self ! i ! j) else rd_all self ! i ! j)"
  define row where "row = (\<lambda>i j. map (piecewise_linear (zip w_tmp (y i j))) irf_w)"
  define idx where "idx = List.product [0..<n0] [0..<n1]"
  define P where "P = (\<lambda>pre R. has_shape3 R n0 n1 (length irf_w) \<and> set pre \<subseteq> set idx
              \<and> (\<forall>p \<in> set pre. R ! fst p ! snd p = row (fst p) (snd p)))"
  define body where "body = (\<lambda>p. rd_interpolate self w_tmp flip irf_w (fst p) (snd p))"
  have step: "\<exists>R'. body p R = Inr R' \<and> P (pre @ [p]) R'"
    if P: "P pre R" and p: "p \<in> set idx" for pre p R
  proof -
    obtain i j where ij: "p = (i, j)" by (cases p)
    from p ij have i: "i < n0" and j: "j < n1" by (auto simp: idx_def)
    have len: "length w_tmp = length (y i j)"
      using rect i j by (simp add: has_shape3_nth y_def)
    have gr: "get_row (rd_all self) i j = Inr (rd_all self ! i ! j)"
      using rect i j by (rule get_row_ok)
    have it: "interp1d w_tmp (y i j) irf_w = Inr (row i j)"
      unfolding row_def by (rule interp1d_ascending [OF asc(1) len asc(2) bounds])
    have shR: "has_shape3 R n0 n1 (length irf_w)" using P by (simp add: P_def)
    have "length (row i j) = length irf_w" by (simp add: row_def)
    from set_row_ok [OF shR i j this]
    obtain R' where R': "set_row R i j (row i j) = Inr R'" "has_shape3 R' n0 n1 (length irf_w)"
      "\<forall>i'<n0. \<forall>j'<n1. R' ! i' ! j' = (if i' = i \<and> j' = j then row i j else R ! i' ! j')"
      by auto
    have body: "body p R = Inr R'"
      using it R'(1) unfolding ij body_def y_def
      by (cases flip) (simp_all add: rd_interpolate_def gr Let_def flipud_def)
    have "R' ! fst q ! snd q = row (fst q) (snd q)" if q: "q \<in> set (pre @ [p])" for q
    proof -
      from q P p have "q \<in> set idx" by (auto simp: P_def)
      then have rng: "fst q < n0" "snd q < n1" by (auto simp: idx_def)
      show ?thesis
      proof (cases "q = p")
        case True
        then show ?thesis using R'(3) i j ij by simp
      next
        case False
        with q have qp: "q \<in> set pre" by auto
        from R'(3) rng False ij have "R' ! fst q ! snd q = R ! fst q ! snd q"
          by (cases q) auto
        with P qp show ?thesis by (auto simp: P_def)
      qed
    qed
    moreover have "set (pre @ [p]) \<subseteq> set idx" using P p by (auto simp: P_def)
    ultimately show ?thesis using body R'(2) unfolding P_def by blast
  qed
  have P0: "P [] (zeros3 n0 n1 (length irf_w))"
    by (simp add: P_def has_shape3_zeros3)
  have "\<exists>R. for_each idx body (zeros3 n0 n1 (length irf_w)) = Inr R \<and> P idx R"
    by (rule for_each_rule [of P "zeros3 n0 n1 (length irf_w)" idx body]) (rule P0, rule step)
  then obtain R where R: "for_each idx body (zeros3 n0 n1 (length irf_w)) = Inr R" "P idx R"
    by blast
  have flat: "for_each [0..<n0] (\<lambda>i. for_each [0..<n1]
                 (rd_interpolate self w_tmp flip irf_w i)) (zeros3 n0 n1 (length irf_w))
              = for_each idx body (zeros3 n0 n1 (length irf_w))"
    unfolding idx_def body_def by (rule for_each_product)
  have "R ! i ! j = row i j" if "i < n0" "j < n1" for i j
  proof -
    from that have "(i, j) \<in> set idx" by (simp add: idx_def)
    with R(2) show ?thesis by (force simp: P_def)
  qed
  with R flat show ?thesis unfolding P_def row_def y_def by auto
qed

lemma rd_irf_loop:
  assumes shR: "has_shape3 R n0 n1 nw" and le: "n0 \<le> m0" "n1 \<le> m1"
  shows "\<exists>K L. for_each (enumerate 0 ts) (\<lambda>tt. for_each [0..<n0] (\<lambda>i. for_each [0..<n1]
                     (rd_irf_step R irf_w tt i)))
                  (zeros3 m0 m1 (length ts), zeros3 m0 m1 (length ts)) = Inr (K, L)
           \<and> (\<forall>i<n0. \<forall>j<n1. \<forall>k<length ts.
                 K ! i ! j ! k = np_trapz (map2 (*) (map (\<lambda>r. 2 / pi * r) (R ! i ! j))
                                                   (map (\<lambda>om. cos (om * (ts ! k))) irf_w)) irf_w
               \<and> L ! i ! j ! k = np_trapz (map2 (*) (map (\<lambda>r. 2 / pi * r) (R ! i ! j))
                                                   (map (\<lambda>om. sin (om * (ts ! k))) irf_w)) irf_w)"
proof -
  define VK where "VK = (\<lambda>i j k. np_trapz (map2 (*) (map (\<lambda>r. 2 / pi * r) (R ! i ! j))
                                                   (map (\<lambda>om. cos (om * (ts ! k))) irf_w)) irf_w)"
  define VL where "VL = (\<lambda>i j k. np_trapz (map2 (*) (map (\<lambda>r. 2 / pi * r) (R ! i ! j))
                                                   (map (\<lambda>om. sin (om * (ts ! k))) irf_w)) irf_w)"
  define nt where "nt = length ts"
  define idx where "idx = List.product (enumerate 0 ts) (List.product [0..<n0] [0..<n1])"
  define body where
    "body = (\<lambda>p. rd_irf_step R irf_w (fst p) (fst (snd p)) (snd (snd p)))"
  define P where "P = (\<lambda>pre KL. has_shape3 (fst KL) m0 m1 nt \<and> has_shape3 (snd KL) m0 m1 nt
      \<and> set pre \<subseteq> set idx
      \<and> (\<forall>p \<in> set pre.
            fst KL ! fst (snd p) ! snd (snd p) ! fst (fst p) = VK (fst (snd p)) (snd (snd p)) (fst (fst p))
          \<and> snd KL ! fst (snd p) ! snd (snd p) ! fst (fst p) = VL (fst (snd p)) (snd (snd p)) (fst (fst p))))"
  have in_idx: "fst (snd p) < n0 \<and> snd (snd p) < n1 \<and> fst (fst p) < nt \<and> snd (fst p) = ts ! fst (fst p)"
    if "p \<in> set idx" for p
  proof -
    obtain k t i j where "p = ((k, t), (i, j))" by (cases p) auto
    with that show ?thesis by (auto simp: idx_def nt_def in_set_enumerate_eq)
  qed
  have step: "\<exists>KL'. body p KL = Inr KL' \<and> P (pre @ [p]) KL'"
    if P: "P pre KL" and p: "p \<in> set idx" for pre p KL
  proof -
    obtain k t i j where pe: "p = ((k, t), (i, j))" by (cases p) auto
    from in_idx [OF p] pe have i: "i < n0" and j: "j < n1" and k: "k < nt" and t: "t = ts ! k"
      by auto
    from i j le have i': "i < m0" and j': "j < m1" by auto
    obtain K L where KL: "KL = (K, L)" by (cases KL)
    from P KL have shK: "has_shape3 K m0 m1 nt" and shL: "has_shape3 L m0 m1 nt"
      by (auto simp: P_def)
    have gr: "get_row R i j = Inr (R ! i ! j)"
      using shR i j by (rule get_row_ok)
    from set_elem3_ok [OF shK i' j' k, of "VK i j k"]
    obtain K' where K': "set_elem3 K i j k (VK i j k) = Inr K'" "has_shape3 K' m0 m1 nt"
      "\<forall>i'<m0. \<forall>j'<m1. \<forall>k'<nt.
         K' ! i' ! j' ! k' = (if i' = i \<and> j' = j \<and> k' = k then VK i j k else K ! i' ! j' ! k')"
      by auto
    from set_elem3_ok [OF shL i' j' k, of "VL i j k"]
    obtain L' where L': "set_elem3 L i j k (VL i j k) = Inr L'" "has_shape3 L' m0 m1 nt"
      "\<forall>i'<m0. \<forall>j'<m1. \<forall>k'<nt.
         L' ! i' ! j' ! k' = (if i' = i \<and> j' = j \<and> k' = k then VL i j k else L ! i' ! j' ! k')"
      by auto
    have "body p KL =
            (case set_elem3 K i j k (VK i j k) of
               Inl e \<Rightarrow> Inl e
             | Inr K' \<Rightarrow> (case set_elem3 L i j k (VL i j k) of
                                  Inl e \<Rightarrow> Inl e | Inr L' \<Rightarrow> Inr (K', L')))"
      unfolding pe KL body_def rd_irf_step_def VK_def VL_def t
      by (simp add: gr Let_def cong: sum.case_cong)
    then have body: "body p KL = Inr (K', L')"
      by (simp add: K'(1) L'(1))
    have "K' ! fst (snd q) ! snd (snd q) ! fst (fst q) = VK (fst (snd q)) (snd (snd q)) (fst (fst q))
        \<and> L' ! fst (snd q) ! snd (snd q) ! fst (fst q) = VL (fst (snd q)) (snd (snd q)) (fst (fst q))"
      if q: "q \<in> set (pre @ [p])" for q
    proof -
      from q P p have qi: "q \<in> set idx" by (auto simp: P_def)
      from in_idx [OF qi] le
      have rng: "fst (snd q) < m0" "snd (snd q) < m1" "fst (fst q) < nt" by auto
      show ?thesis
      proof (cases "fst (snd q) = i \<and> snd (snd q) = j \<and> fst (fst q) = k")
        case True
        then show ?thesis using K'(3) L'(3) i' j' k by simp
      next
        case False
        with q pe have qp: "q \<in> set pre" by auto
        from K'(3) L'(3) rng False
        have "K' ! fst (snd q) ! snd (snd q) ! fst (fst q) = K ! fst (snd q) ! snd (snd q) ! fst (fst q)"
          "L' ! fst (snd q) ! snd (snd q) ! fst (fst q) = L ! fst (snd q) ! snd (snd q) ! fst (fst q)"
          by auto
        with P qp KL show ?thesis by (auto simp: P_def)
      qed
    qed
    moreover have "set (pre @ [p]) \<subseteq> set idx" using P p by (auto simp: P_def)
    ultimately have "P (pre @ [p]) (K', L')" using K'(2) L'(2) unfolding P_def by simp
    with body show ?thesis by blast
  qed
  have P0: "P [] (zeros3 m0 m1 nt, zeros3 m0 m1 nt)"
    by (simp add: P_def has_shape3_zeros3)
  have "\<exists>KL. for_each idx body (zeros3 m0 m1 nt, zeros3 m0 m1 nt) = Inr KL \<and> P idx KL"
    by (rule for_each_rule [of P "(zeros3 m0 m1 nt, zeros3 m0 m1 nt)" idx body]) (rule P0, rule step)
  then obtain K L where KL: "for_each idx body (zeros3 m0 m1 nt, zeros3 m0 m1 nt) = Inr (K, L)"
      "P idx (K, L)"
    by auto
  have flat: "for_each (enumerate 0 ts) (\<lambda>tt. for_each [0..<n0] (\<lambda>i. for_each [0..<n1]
                     (rd_irf_step R irf_w tt i))) s
              = for_each idx body s" for s
  proof -
    have inner: "(\<lambda>tt. for_each [0..<n0] (\<lambda>i. for_each [0..<n1] (rd_irf_step R irf_w tt i)))
          = (\<lambda>tt. for_each (List.product [0..<n0] [0..<n1])
                     (\<lambda>q. rd_irf_step R irf_w tt (fst q) (snd q)))"
      by (intro ext) (rule for_each_product)
    show ?thesis unfolding inner idx_def body_def by (rule for_each_product)
  qed
  have res: "\<forall>i<n0. \<forall>j<n1. \<forall>k<length ts. K ! i ! j ! k = VK i j k \<and> L ! i ! j ! k = VL i j k"
  proof (intro allI impI)
    fix i j k assume "i < n0" "j < n1" "k < length ts"
    then have "((k, ts ! k), (i, j)) \<in> set idx"
      by (simp add: idx_def in_set_enumerate_eq)
    with KL(2) show "K ! i ! j ! k = VK i j k \<and> L ! i ! j ! k = VL i j k"
      by (force simp: P_def)
  qed
  have run: "for_each (enumerate 0 ts) (\<lambda>tt. for_each [0..<n0] (\<lambda>i. for_each [0..<n1]
                     (rd_irf_step R irf_w tt i)))
                  (zeros3 m0 m1 (length ts), zeros3 m0 m1 (length ts)) = Inr (K, L)"
    using KL(1) unfolding flat nt_def .
  from run res show ?thesis unfolding VK_def VL_def by blast
qed

lemma sorted_le_last: "sorted xs \<Longrightarrow> (y::real) \<in> set xs \<Longrightarrow> y \<le> last xs"
  by (induction xs) auto

lemma strict_sorted_hd_Min:
  assumes "sorted_wrt (<) (xs :: real list)" "xs \<noteq> []"
  shows "hd xs = Min (set xs)" "last xs = Max (set xs)"
proof -
  have s: "sorted xs" using assms(1) by (simp add: strict_sorted_imp_sorted)
  obtain x r where xr: "xs = x # r" using assms(2) by (cases xs) auto
  have "\<forall>y \<in> set xs. hd xs \<le> y" using s xr by auto
  then show "hd xs = Min (set xs)"
    using assms(2) by (intro Min_eqI [symmetric]) auto
  have "\<forall>y \<in> set xs. y \<le> last xs"
    using sorted_le_last [OF s] by blast
  then show "last xs = Max (set xs)"
    using assms(2) by (intro Max_eqI [symmetric]) auto
qed

lemma flip_grid_cases:
  assumes "strictly_monotonic ws" "2 \<le> length ws"
  obtains (asc) "sorted_wrt (<) ws" "\<not> sorted_wrt (>) ws" "flip_grid ws = Inr (ws, False)"
        | (desc) "sorted_wrt (>) ws" "sorted_wrt (<) (rev ws)" "flip_grid ws = Inr (rev ws, True)"
proof -
  from assms(2) obtain a b r where ws: "ws = a # b # r"
    by (cases ws; cases "tl ws") auto
  from assms(1) consider "sorted_wrt (<) ws" | "sorted_wrt (>) ws"
    by (auto simp: strictly_monotonic_def)
  then show thesis
  proof cases
    case 1
    then have "a < b" unfolding ws by simp
    then have "\<not> sorted_wrt (>) ws" "flip_grid ws = Inr (ws, False)"
      unfolding ws by (auto simp: flip_grid_def)
    with 1 show thesis by (rule asc)
  next
    case 2
    then have "a > b" unfolding ws by simp
    then have "flip_grid ws = Inr (rev ws, True)"
      unfolding ws by (auto simp: flip_grid_def flipud_def)
    moreover have "sorted_wrt (<) (rev ws)"
      using 2 by (simp add: sorted_wrt_rev)
    ultimately show thesis using 2 by (intro desc)
  qed
qed

lemma calc_irf_radiation_run:
  assumes mn: "np_min (w self) = Inr lo" and mx: "np_max (w self) = Inr hi"
    and fg: "flip_grid (w self) = Inr (w_tmp, flip)"
    and interp: "for_each [0..<shape0 (rd_all self)] (\<lambda>i. for_each [0..<shape1 (rd_all self)]
                 (rd_interpolate self w_tmp flip (linspace lo hi n_w) i))
                 (zeros3 (shape0 (rd_all self)) (shape1 (rd_all self)) (length (linspace lo hi n_w))) = Inr R"
    and quad: "for_each (enumerate 0 (linspace 0 t_end n_t))
                 (\<lambda>tt. for_each [0..<shape0 (rd_all self)] (\<lambda>i. for_each [0..<shape1 (rd_all self)]
                     (rd_irf_step R (linspace lo hi n_w) tt i)))
                  (zeros3 (shape0 (am_inf self)) (shape1 (am_inf self)) (length (linspace 0 t_end n_t)),
                   zeros3 (shape0 (am_inf self)) (shape1 (am_inf self)) (length (linspace 0 t_end n_t)))
                = Inr (K, L)"
  shows "calc_irf_radiation self t_end n_t n_w =
           Inr (self\<lparr>rd_irf_t := linspace 0 t_end n_t, rd_irf_w := linspace lo hi n_w,
                     rd_irf_L := L, rd_irf_K := K\<rparr>)"
  by (simp add: calc_irf_radiation_def Let_def mn mx fg interp quad)

lemma ascending_nodes_asc:
  "sorted_wrt (<) ws \<Longrightarrow> \<not> sorted_wrt (>) ws \<Longrightarrow> ascending_nodes ws ys = zip ws ys"
  by (simp add: ascending_nodes_def)

lemma ascending_nodes_desc:
  "sorted_wrt (>) ws \<Longrightarrow> ascending_nodes ws ys = zip (rev ws) (rev ys)"
  by (simp add: ascending_nodes_def)

lemma trapz_integrand:
  "np_trapz (map2 (*) (map (\<lambda>r. 2 / pi * r) (map g ws)) (map c ws)) ws
     = trapezoid (\<lambda>om. 2 / pi * g om * c om) ws"
proof -
  have "map2 (*) (map (\<lambda>r. 2 / pi * r) (map g ws)) (map c ws) = map (\<lambda>om. 2 / pi * g om * c om) ws"
    by (induction ws) simp_all
  then show ?thesis by (simp only: np_trapz_map)
qed

text \<open>
  C4. On a store whose grid is strictly monotonic with at least two points, whose
  \<open>rd.all\<close> is rectangular and sampled along the grid, and whose \<open>am.inf\<close> is at least as
  large as the leading two dimensions of \<open>rd.all\<close>, \<open>calc_irf_radiation\<close> returns. The
  time grid is \<open>n_t\<close> points linearly spaced on \<open>[0, t_end]\<close>, the frequency grid is
  \<open>n_w\<close> points linearly spaced between the least and the greatest grid frequency, and
  every \<open>K[i, j, k]\<close> is the trapezoidal quadrature over that grid of
  \<open>2 / pi * rd_interp(om) * cos (om * t_k)\<close>, every \<open>L[i, j, k]\<close> that of
  \<open>2 / pi * rd_interp(om) * sin (om * t_k)\<close>, where \<open>rd_interp\<close> is the piecewise-linear
  function through the samples \<open>rd.all[i, j, :]\<close>.
\<close>

theorem calc_irf_radiation_quadrature:
  assumes mono: "strictly_monotonic (w self)" and len: "2 \<le> length (w self)"
    and rect: "has_shape3 (rd_all self) (shape0 (rd_all self)) (shape1 (rd_all self))
                 (length (w self))"
    and fits: "shape0 (rd_all self) \<le> shape0 (am_inf self)"
              "shape1 (rd_all self) \<le> shape1 (am_inf self)"
  shows "\<exists>self'. calc_irf_radiation self t_end n_t n_w = Inr self'
      \<and> rd_irf_t self' = uniform_grid 0 t_end n_t
      \<and> rd_irf_w self' = uniform_grid (Min (set (w self))) (Max (set (w self))) n_w
      \<and> (\<forall>i<shape0 (rd_all self). \<forall>j<shape1 (rd_all self). \<forall>k<n_t.
           rd_irf_K self' ! i ! j ! k =
             trapezoid (\<lambda>om. 2 / pi
                          * piecewise_linear (ascending_nodes (w self) (rd_all self ! i ! j)) om
                          * cos (om * (uniform_grid 0 t_end n_t ! k)))
               (uniform_grid (Min (set (w self))) (Max (set (w self))) n_w)
         \<and> rd_irf_L self' ! i ! j ! k =
             trapezoid (\<lambda>om. 2 / pi
                          * piecewise_linear (ascending_nodes (w self) (rd_all self ! i ! j)) om
                          * sin (om * (uniform_grid 0 t_end n_t ! k)))
               (uniform_grid (Min (set (w self))) (Max (set (w self))) n_w))"
proof -
  define n0 where "n0 = shape0 (rd_all self)"
  define n1 where "n1 = shape1 (rd_all self)"
  define lo where "lo = Min (set (w self))"
  define hi where "hi = Max (set (w self))"
  define gw where "gw = uniform_grid lo hi n_w"
  define gt where "gt = uniform_grid 0 t_end n_t"
  from len have ne: "w self \<noteq> []" by auto
  have mn: "np_min (w self) = Inr lo" and mx: "np_max (w self) = Inr hi"
    using ne by (simp_all add: np_min_eq np_max_eq lo_def hi_def)
  have lohi: "lo \<le> hi" unfolding lo_def hi_def using ne by simp
  obtain w_tmp flip where fg: "flip_grid (w self) = Inr (w_tmp, flip)"
    and asc: "sorted_wrt (<) w_tmp" and lw: "length w_tmp = length (w self)"
    and sw: "set w_tmp = set (w self)"
    and nodes: "\<And>ys. ascending_nodes (w self) ys = zip w_tmp (if flip then rev ys else ys)"
    using mono len
  proof (cases rule: flip_grid_cases)
    case asc
    show thesis
      by (rule that [of "w self" False]) (use asc in \<open>simp_all add: ascending_nodes_asc\<close>)
  next
    case desc
    show thesis
      by (rule that [of "rev (w self)" True]) (use desc in \<open>simp_all add: ascending_nodes_desc\<close>)
  qed
  from lw len have len': "2 \<le> length w_tmp" and ne': "w_tmp \<noteq> []" by auto
  have hl: "hd w_tmp = lo" "last w_tmp = hi"
    using strict_sorted_hd_Min [OF asc ne'] by (simp_all add: sw lo_def hi_def)
  have bounds: "\<forall>v \<in> set gw. hd w_tmp \<le> v \<and> v \<le> last w_tmp"
    unfolding hl gw_def using uniform_grid_bounds [OF lohi] by blast
  have rect': "has_shape3 (rd_all self) n0 n1 (length w_tmp)"
    using rect by (simp add: n0_def n1_def lw)
  from rd_interpolate_loop [OF rect' asc len' bounds, of flip]
  obtain R where R: "for_each [0..<n0] (\<lambda>i. for_each [0..<n1]
                 (rd_interpolate self w_tmp flip gw i)) (zeros3 n0 n1 (length gw)) = Inr R"
     "has_shape3 R n0 n1 (length gw)"
     "\<forall>i<n0. \<forall>j<n1. R ! i ! j =
                 map (piecewise_linear (zip w_tmp
                        (if flip then rev (rd_all self ! i ! j) else rd_all self ! i ! j))) gw"
    by blast
  from rd_irf_loop [OF R(2), of "shape0 (am_inf self)" "shape1 (am_inf self)" gt gw] fits
  obtain K L where KL: "for_each (enumerate 0 gt) (\<lambda>tt. for_each [0..<n0] (\<lambda>i. for_each [0..<n1]
                     (rd_irf_step R gw tt i)))
                  (zeros3 (shape0 (am_inf self)) (shape1 (am_inf self)) (length gt),
                   zeros3 (shape0 (am_inf self)) (shape1 (am_inf self)) (length gt)) = Inr (K, L)"
     "\<forall>i<n0. \<forall>j<n1. \<forall>k<length gt.
                 K ! i ! j ! k = np_trapz (map2 (*) (map (\<lambda>r. 2 / pi * r) (R ! i ! j))
                                                   (map (\<lambda>om. cos (om * (gt ! k))) gw)) gw
               \<and> L ! i ! j ! k = np_trapz (map2 (*) (map (\<lambda>r. 2 / pi * r) (R ! i ! j))
                                                   (map (\<lambda>om. sin (om * (gt ! k))) gw)) gw"
    unfolding n0_def n1_def by blast
  let ?self' = "self\<lparr>rd_irf_t := linspace 0 t_end n_t, rd_irf_w := linspace lo hi n_w,
                     rd_irf_L := L, rd_irf_K := K\<rparr>"
  have run: "calc_irf_radiation self t_end n_t n_w = Inr ?self'"
    by (rule calc_irf_radiation_run [OF mn mx fg])
       (use R(1) KL(1) in \<open>simp_all only: linspace_uniform gw_def gt_def n0_def n1_def\<close>)
  have vals: "K ! i ! j ! k =
             trapezoid (\<lambda>om. 2 / pi
                          * piecewise_linear (ascending_nodes (w self) (rd_all self ! i ! j)) om
                          * cos (om * (gt ! k))) gw
         \<and> L ! i ! j ! k =
             trapezoid (\<lambda>om. 2 / pi
                          * piecewise_linear (ascending_nodes (w self) (rd_all self ! i ! j)) om
                          * sin (om * (gt ! k))) gw"
    if "i < n0" "j < n1" "k < n_t" for i j k
  proof -
    from that have k: "k < length gt" by (simp add: gt_def)
    have Rij: "R ! i ! j = map (piecewise_linear (ascending_nodes (w self) (rd_all self ! i ! j))) gw"
      using R(3) that by (simp add: nodes)
    from KL(2) that(1,2) k
    have "K ! i ! j ! k = np_trapz (map2 (*) (map (\<lambda>r. 2 / pi * r) (R ! i ! j))
                                                   (map (\<lambda>om. cos (om * (gt ! k))) gw)) gw
               \<and> L ! i ! j ! k = np_trapz (map2 (*) (map (\<lambda>r. 2 / pi * r) (R ! i ! j))
                                                   (map (\<lambda>om. sin (om * (gt ! k))) gw)) gw"
      by blast
    then show ?thesis unfolding Rij trapz_integrand .
  qed
  show ?thesis
  proof (intro exI conjI)
    show "calc_irf_radiation self t_end n_t n_w = Inr ?self'" by (rule run)
    show "rd_irf_t ?self' = uniform_grid 0 t_end n_t" by (simp add: linspace_uniform)
    show "rd_irf_w ?self' = uniform_grid (Min (set (w self))) (Max (set (w self))) n_w"
      by (simp add: linspace_uniform lo_def hi_def)
    show "\<forall>i<shape0 (rd_all self). \<forall>j<shape1 (rd_all self). \<forall>k<n_t.
           rd_irf_K ?self' ! i ! j ! k =
             trapezoid (\<lambda>om. 2 / pi
                          * piecewise_linear (ascending_nodes (w self) (rd_all self ! i ! j)) om
                          * cos (om * (uniform_grid 0 t_end n_t ! k)))
               (uniform_grid (Min (set (w self))) (Max (set (w self))) n_w)
         \<and> rd_irf_L ?self' ! i ! j ! k =
             trapezoid (\<lambda>om. 2 / pi
                          * piecewise_linear (ascending_nodes (w self) (rd_all self ! i ! j)) om
                          * sin (om * (uniform_grid 0 t_end n_t ! k)))
               (uniform_grid (Min (set (w self))) (Max (set (w self))) n_w)"
      using vals unfolding gw_def gt_def lo_def hi_def n0_def n1_def by simp
  qed
qed

theorem calc_irf_radiation_quadrature_witness:
  "strictly_monotonic (w example_descending) \<and> 2 \<le> length (w example_descending)
   \<and> has_shape3 (rd_all example_descending) (shape0 (rd_all example_descending))
        (shape1 (rd_all example_descending)) (length (w example_descending))
   \<and> shape0 (rd_all example_descending) \<le> shape0 (am_inf example_descending)
   \<and> shape1 (rd_all example_descending) \<le> shape1 (am_inf example_descending)
   \<and> (\<exists>self'. calc_irf_radiation example_descending 100 3 3 = Inr self'
      \<and> rd_irf_t self' = uniform_grid 0 100 3
      \<and> rd_irf_w self' = uniform_grid (Min (set (w example_descending)))
                            (Max (set (w example_descending))) 3
      \<and> (\<forall>i<shape0 (rd_all example_descending). \<forall>j<shape1 (rd_all example_descending). \<forall>k<3.
           rd_irf_K self' ! i ! j ! k =
             trapezoid (\<lambda>om. 2 / pi
                 * piecewise_linear (ascending_nodes (w example_descending)
                                       (rd_all example_descending ! i ! j)) om
                 * cos (om * (uniform_grid 0 100 3 ! k)))
               (uniform_grid (Min (set (w example_descending)))
                             (Max (set (w example_descending))) 3)
         \<and> rd_irf_L self' ! i ! j ! k =
             trapezoid (\<lambda>om. 2 / pi
                 * piecewise_linear (ascending_nodes (w example_descending)
                                       (rd_all example_descending ! i ! j)) om
                 * sin (om * (uniform_grid 0 100 3 ! k)))
               (uniform_grid (Min (set (w example_descending)))
                             (Max (set (w example_descending))) 3)))"
proof -
  have h1: "strictly_monotonic (w example_descending)"
    by (simp add: example_descending_def example_store_def strictly_monotonic_def)
  have h2: "2 \<le> length (w example_descending)"
    by (simp add: example_descending_def example_store_def)
  have h3: "has_shape3 (rd_all example_descending) (shape0 (rd_all example_descending))
        (shape1 (rd_all example_descending)) (length (w example_descending))"
    by (simp add: example_descending_def example_store_def has_shape3_def shape0_def shape1_def)
  have h4: "shape0 (rd_all example_descending) \<le> shape0 (am_inf example_descending)"
    by (simp add: example_descending_def example_store_def shape0_def)
  have h5: "shape1 (rd_all example_descending) \<le> shape1 (am_inf example_descending)"
    by (simp add: example_descending_def example_store_def shape1_def)
  from calc_irf_radiation_quadrature [OF h1 h2 h3 h4 h5, of 100 3 3] h1 h2 h3 h4 h5
  show ?thesis by blast
qed

section \<open>Grids of fewer than two points\<close>

lemma calc_irf_radiation_short_grid:
  "length (w self) < 2 \<Longrightarrow>
     calc_irf_radiation self t_end n_t n_w = Inl (if w self = [] then ValueError else IndexError)"
proof (cases "w self")
  case Nil
  then show ?thesis by (simp add: calc_irf_radiation_def np_min_def)
next
  case (Cons a r)
  assume "length (w self) < 2"
  with Cons have "r = []" by simp
  with Cons show ?thesis
    by (simp add: calc_irf_radiation_def np_min_def np_max_def flip_grid_def Let_def)
qed

lemma calc_irf_excitation_short_grid:
  "length (w self) < 2 \<Longrightarrow>
     calc_irf_excitation self t_length n_t n_w = Inl (if w self = [] then ValueError else IndexError)"
proof (cases "w self")
  case Nil
  then show ?thesis by (simp add: calc_irf_excitation_def np_min_def)
next
  case (Cons a r)
  assume "length (w self) < 2"
  with Cons have "r = []" by simp
  with Cons show ?thesis
    by (simp add: calc_irf_excitation_def np_min_def np_max_def flip_grid_def Let_def)
qed

text \<open>
  C8, as the code has it. On a grid of fewer than two points both methods raise before any
  interpolation happens: \<open>np.min\<close> raises \<open>ValueError\<close> on the empty grid, and the
  read of \<open>self.w[1]\<close> raises \<open>IndexError\<close> on a one-point grid. The module has no
  error of its own for this case.
\<close>

theorem short_grid_raises:
  "length (w self) < 2 \<Longrightarrow>
     calc_irf_radiation self t_end n_t n_w = Inl (if w self = [] then ValueError else IndexError)
   \<and> calc_irf_excitation self t_length n_t' n_w' =
         Inl (if w self = [] then ValueError else IndexError)"
  by (simp add: calc_irf_radiation_short_grid calc_irf_excitation_short_grid)

theorem short_grid_raises_witness:
  "length (w (example_store\<lparr>w := []\<rparr>)) < 2
   \<and> calc_irf_radiation (example_store\<lparr>w := []\<rparr>) 100 1001 1001 = Inl ValueError
   \<and> calc_irf_excitation (example_store\<lparr>w := []\<rparr>) 100 1001 1001 = Inl ValueError"
  using short_grid_raises [of "example_store\<lparr>w := []\<rparr>" 100 1001 1001 100 1001 1001]
  by simp

text \<open>
  The one-point grid: both methods end in the \<open>IndexError\<close> of \<open>self.w[1]\<close>, which is
  an error other than the one the specification names.
\<close>

theorem one_point_grid_index_error:
  "calc_irf_radiation (example_store\<lparr>w := [1]\<rparr>) 100 1001 1001 = Inl IndexError
   \<and> calc_irf_excitation (example_store\<lparr>w := [1]\<rparr>) 100 1001 1001 = Inl IndexError"
  using calc_irf_radiation_short_grid [of "example_store\<lparr>w := [1]\<rparr>" 100 1001 1001]
        calc_irf_excitation_short_grid [of "example_store\<lparr>w := [1]\<rparr>" 100 1001 1001]
  by simp

section \<open>The excitation impulse response on a descending grid\<close>

lemma upt2: "[0..<2] = [0, Suc 0]"
  by (simp add: numeral_2_eq_2)

lemma linspace_1: "linspace a b (Suc 0) = [a]"
  by (simp add: linspace_def)

lemma linspace_2: "linspace a b 2 = [a, b]"
  by (simp add: linspace_def upt2)

lemma uniform_grid_2: "uniform_grid a b 2 = [a, b]"
  by (simp add: uniform_grid_def upt2)

text \<open>
  \<open>calc_irf_radiation\<close> treats a descending grid as the specification says: it gives
  the same tensors, or the same exception, on the store and on its ascending equivalent.
\<close>

lemma for_each_cong:
  "(\<And>x s. x \<in> set xs \<Longrightarrow> f x s = g x s) \<Longrightarrow> for_each xs f s = for_each xs g s"
  by (induction xs arbitrary: s) (auto split: sum.splits)

lemma get_row_map_rev:
  "get_row (map (map rev) a) i j =
     (case get_row a i j of Inl e \<Rightarrow> Inl e | Inr row \<Rightarrow> Inr (rev row))"
  by (simp add: get_row_def)

lemma shape_map_rev [simp]:
  "shape0 (map (map rev) a) = shape0 a" "shape1 (map (map rev) a) = shape1 a"
  by (cases a; simp add: shape0_def shape1_def)+

lemma np_min_rev: "np_min (rev xs) = np_min xs"
proof (cases "xs = []")
  case True
  then show ?thesis by simp
next
  case False
  then show ?thesis by (simp add: np_min_eq)
qed

lemma np_max_rev: "np_max (rev xs) = np_max xs"
proof (cases "xs = []")
  case True
  then show ?thesis by simp
next
  case False
  then show ?thesis by (simp add: np_max_eq)
qed

lemma rd_interpolate_rev:
  "rd_interpolate (ascending_equivalent self) w_tmp False irf_w i j R
     = rd_interpolate self w_tmp True irf_w i j R"
  by (simp add: rd_interpolate_def ascending_equivalent_def get_row_map_rev flipud_def
           split: sum.splits)

lemma flip_grid_descending:
  assumes "sorted_wrt (>) ws" "2 \<le> length ws"
  shows "flip_grid ws = Inr (rev ws, True)" "flip_grid (rev ws) = Inr (rev ws, False)"
proof -
  from assms(1,2) have "strictly_monotonic ws" by (simp add: strictly_monotonic_def)
  from assms(2) obtain a b r where ws: "ws = a # b # r"
    by (cases ws; cases "tl ws") auto
  from assms(1) have "a > b" unfolding ws by simp
  then show "flip_grid ws = Inr (rev ws, True)"
    unfolding ws by (simp add: flip_grid_def flipud_def)
  have s: "sorted_wrt (<) (rev ws)" using assms(1) by (simp add: sorted_wrt_rev)
  from assms(2) obtain c d q where rws: "rev ws = c # d # q"
    by (cases "rev ws"; cases "tl (rev ws)") (auto simp: Suc_le_eq)
  from s have "c < d" unfolding rws by simp
  then show "flip_grid (rev ws) = Inr (rev ws, False)"
    unfolding rws by (simp add: flip_grid_def)
qed

lemma calc_irf_radiation_descending:
  assumes desc: "sorted_wrt (>) (w self)"
  shows "map_sum id rd_irf_outputs (calc_irf_radiation (ascending_equivalent self) t_end n_t n_w)
       = map_sum id rd_irf_outputs (calc_irf_radiation self t_end n_t n_w)"
proof (cases "length (w self) < 2")
  case True
  then have "length (w (ascending_equivalent self)) < 2" by (simp add: ascending_equivalent_def)
  from calc_irf_radiation_short_grid [OF this] calc_irf_radiation_short_grid [OF True]
  show ?thesis by (simp add: ascending_equivalent_def)
next
  case False
  then have len: "2 \<le> length (w self)" by simp
  note fg = flip_grid_descending [OF desc len]
  have f: "w (ascending_equivalent self) = rev (w self)"
    "rd_all (ascending_equivalent self) = map (map rev) (rd_all self)"
    "am_inf (ascending_equivalent self) = am_inf self"
    by (simp_all add: ascending_equivalent_def)
  have body: "rd_interpolate (ascending_equivalent self) w_tmp False irf_w
                = rd_interpolate self w_tmp True irf_w" for w_tmp irf_w
    by (intro ext) (rule rd_interpolate_rev)
  show ?thesis
    unfolding calc_irf_radiation_def Let_def f np_min_rev np_max_rev fg shape_map_rev
    by (simp add: body rd_irf_outputs_def split: sum.splits prod.splits)
qed

text \<open>
  On a grid that is not flipped \<open>calc_irf_excitation\<close> computes the quadrature the
  specification describes.
\<close>

lemma ex_interpolate_loop:
  assumes re: "has_shape3 (ex_re self) n0 n1 (length w_tmp)"
    and im: "has_shape3 (ex_im self) n0 n1 (length w_tmp)"
    and asc: "sorted_wrt (<) w_tmp" "2 \<le> length w_tmp"
    and bounds: "\<forall>v \<in> set irf_w. hd w_tmp \<le> v \<and> v \<le> last w_tmp"
  shows "\<exists>Rre Rim. for_each [0..<n0] (\<lambda>i. for_each [0..<n1]
                 (ex_interpolate self w_tmp False irf_w i))
                 (zeros3 n0 n1 (length irf_w), zeros3 n0 n1 (length irf_w)) = Inr (Rre, Rim)
           \<and> has_shape3 Rre n0 n1 (length irf_w) \<and> has_shape3 Rim n0 n1 (length irf_w)
           \<and> (\<forall>i<n0. \<forall>j<n1.
                 Rre ! i ! j = map (piecewise_linear (zip w_tmp (ex_re self ! i ! j))) irf_w
               \<and> Rim ! i ! j = map (piecewise_linear (zip w_tmp (ex_im self ! i ! j))) irf_w)"
proof -
  define rre where "rre = (\<lambda>i j. map (piecewise_linear (zip w_tmp (ex_re self ! i ! j))) irf_w)"
  define rim where "rim = (\<lambda>i j. map (piecewise_linear (zip w_tmp (ex_im self ! i ! j))) irf_w)"
  define nw where "nw = length irf_w"
  define idx where "idx = List.product [0..<n0] [0..<n1]"
  define P where "P = (\<lambda>pre R. has_shape3 (fst R) n0 n1 nw \<and> has_shape3 (snd R) n0 n1 nw
              \<and> set pre \<subseteq> set idx
              \<and> (\<forall>p \<in> set pre. fst R ! fst p ! snd p = rre (fst p) (snd p)
                                 \<and> snd R ! fst p ! snd p = rim (fst p) (snd p)))"
  define body where "body = (\<lambda>p. ex_interpolate self w_tmp False irf_w (fst p) (snd p))"
  have step: "\<exists>R'. body p R = Inr R' \<and> P (pre @ [p]) R'"
    if P: "P pre R" and p: "p \<in> set idx" for pre p R
  proof -
    obtain i j where ij: "p = (i, j)" by (cases p)
    obtain Rre Rim where R: "R = (Rre, Rim)" by (cases R)
    from p ij have i: "i < n0" and j: "j < n1" by (auto simp: idx_def)
    have len: "length w_tmp = length (ex_re self ! i ! j)" "length w_tmp = length (ex_im self ! i ! j)"
      using re im i j by (simp_all add: has_shape3_nth)
    have gr: "get_row (ex_re self) i j = Inr (ex_re self ! i ! j)"
      "get_row (ex_im self) i j = Inr (ex_im self ! i ! j)"
      using re im i j by (simp_all add: get_row_ok)
    have it: "interp1d w_tmp (ex_re self ! i ! j) irf_w = Inr (rre i j)"
      "interp1d w_tmp (ex_im self ! i ! j) irf_w = Inr (rim i j)"
      unfolding rre_def rim_def
      by (rule interp1d_ascending [OF asc(1) len(1) asc(2) bounds],
          rule interp1d_ascending [OF asc(1) len(2) asc(2) bounds])
    from P R have sh: "has_shape3 Rre n0 n1 nw" "has_shape3 Rim n0 n1 nw" by (simp_all add: P_def)
    have l: "length (rre i j) = nw" "length (rim i j) = nw" by (simp_all add: rre_def rim_def nw_def)
    from set_row_ok [OF sh(1) i j l(1)]
    obtain Rre' where Rre': "set_row Rre i j (rre i j) = Inr Rre'" "has_shape3 Rre' n0 n1 nw"
      "\<forall>i'<n0. \<forall>j'<n1. Rre' ! i' ! j' = (if i' = i \<and> j' = j then rre i j else Rre ! i' ! j')"
      by auto
    from set_row_ok [OF sh(2) i j l(2)]
    obtain Rim' where Rim': "set_row Rim i j (rim i j) = Inr Rim'" "has_shape3 Rim' n0 n1 nw"
      "\<forall>i'<n0. \<forall>j'<n1. Rim' ! i' ! j' = (if i' = i \<and> j' = j then rim i j else Rim ! i' ! j')"
      by auto
    have body: "body p R = Inr (Rre', Rim')"
      unfolding ij R body_def
      by (simp add: ex_interpolate_def ex_slices_def gr it Rre'(1) Rim'(1))
    have "Rre' ! fst q ! snd q = rre (fst q) (snd q) \<and> Rim' ! fst q ! snd q = rim (fst q) (snd q)"
      if q: "q \<in> set (pre @ [p])" for q
    proof -
      from q P p have "q \<in> set idx" by (auto simp: P_def)
      then have rng: "fst q < n0" "snd q < n1" by (auto simp: idx_def)
      show ?thesis
      proof (cases "q = p")
        case True
        then show ?thesis using Rre'(3) Rim'(3) i j ij by simp
      next
        case False
        with q have qp: "q \<in> set pre" by auto
        from Rre'(3) Rim'(3) rng False ij
        have "Rre' ! fst q ! snd q = Rre ! fst q ! snd q" "Rim' ! fst q ! snd q = Rim ! fst q ! snd q"
          by (cases q; auto)+
        with P qp R show ?thesis by (auto simp: P_def)
      qed
    qed
    moreover have "set (pre @ [p]) \<subseteq> set idx" using P p by (auto simp: P_def)
    ultimately have "P (pre @ [p]) (Rre', Rim')" using Rre'(2) Rim'(2) unfolding P_def by simp
    with body show ?thesis by blast
  qed
  have P0: "P [] (zeros3 n0 n1 nw, zeros3 n0 n1 nw)"
    by (simp add: P_def has_shape3_zeros3)
  have "\<exists>R. for_each idx body (zeros3 n0 n1 nw, zeros3 n0 n1 nw) = Inr R \<and> P idx R"
    by (rule for_each_rule [of P "(zeros3 n0 n1 nw, zeros3 n0 n1 nw)" idx body]) (rule P0, rule step)
  then obtain Rre Rim where R: "for_each idx body (zeros3 n0 n1 nw, zeros3 n0 n1 nw) = Inr (Rre, Rim)"
    "P idx (Rre, Rim)"
    by auto
  have flat: "for_each [0..<n0] (\<lambda>i. for_each [0..<n1]
                 (ex_interpolate self w_tmp False irf_w i)) s = for_each idx body s" for s
    unfolding idx_def body_def by (rule for_each_product)
  have res: "\<forall>i<n0. \<forall>j<n1. Rre ! i ! j = rre i j \<and> Rim ! i ! j = rim i j"
  proof (intro allI impI)
    fix i j assume "i < n0" "j < n1"
    then have "(i, j) \<in> set idx" by (simp add: idx_def)
    with R(2) show "Rre ! i ! j = rre i j \<and> Rim ! i ! j = rim i j" by (force simp: P_def)
  qed
  have run: "for_each [0..<n0] (\<lambda>i. for_each [0..<n1]
                 (ex_interpolate self w_tmp False irf_w i))
                 (zeros3 n0 n1 (length irf_w), zeros3 n0 n1 (length irf_w)) = Inr (Rre, Rim)"
    using R(1) unfolding flat nw_def .
  from R(2) have "has_shape3 Rre n0 n1 (length irf_w)" "has_shape3 Rim n0 n1 (length irf_w)"
    by (simp_all add: P_def nw_def)
  with run res show ?thesis unfolding rre_def rim_def by blast
qed

lemma ex_irf_loop:
  assumes sh: "has_shape3 Rre n0 n1 nw" "has_shape3 Rim n0 n1 nw"
  shows "\<exists>f. for_each (enumerate 0 ts) (\<lambda>tt. for_each [0..<n0] (\<lambda>i. for_each [0..<n1]
                     (ex_irf_step (Rre, Rim) irf_w tt i))) (zeros3 n0 n1 (length ts)) = Inr f
           \<and> (\<forall>i<n0. \<forall>j<n1. \<forall>k<length ts.
                 f ! i ! j ! k
                   = np_trapz (map (\<lambda>x. x * (1 / pi))
                        (map2 (-) (map2 (*) (Rre ! i ! j) (map (\<lambda>om. cos (om * (ts ! k))) irf_w))
                                  (map2 (*) (Rim ! i ! j) (map (\<lambda>om. sin (om * (ts ! k))) irf_w)))) irf_w)"
proof -
  define V where
    "V = (\<lambda>i j k. np_trapz (map (\<lambda>x. x * (1 / pi))
                        (map2 (-) (map2 (*) (Rre ! i ! j) (map (\<lambda>om. cos (om * (ts ! k))) irf_w))
                                  (map2 (*) (Rim ! i ! j) (map (\<lambda>om. sin (om * (ts ! k))) irf_w)))) irf_w)"
  define nt where "nt = length ts"
  define idx where "idx = List.product (enumerate 0 ts) (List.product [0..<n0] [0..<n1])"
  define body where
    "body = (\<lambda>p. ex_irf_step (Rre, Rim) irf_w (fst p) (fst (snd p)) (snd (snd p)))"
  define P where "P = (\<lambda>pre f. has_shape3 f n0 n1 nt \<and> set pre \<subseteq> set idx
      \<and> (\<forall>p \<in> set pre.
            f ! fst (snd p) ! snd (snd p) ! fst (fst p) = V (fst (snd p)) (snd (snd p)) (fst (fst p))))"
  have in_idx: "fst (snd p) < n0 \<and> snd (snd p) < n1 \<and> fst (fst p) < nt \<and> snd (fst p) = ts ! fst (fst p)"
    if "p \<in> set idx" for p
  proof -
    obtain k t i j where "p = ((k, t), (i, j))" by (cases p) auto
    with that show ?thesis by (auto simp: idx_def nt_def in_set_enumerate_eq)
  qed
  have step: "\<exists>f'. body p f = Inr f' \<and> P (pre @ [p]) f'"
    if P: "P pre f" and p: "p \<in> set idx" for pre p f
  proof -
    obtain k t i j where pe: "p = ((k, t), (i, j))" by (cases p) auto
    from in_idx [OF p] pe have i: "i < n0" and j: "j < n1" and k: "k < nt" and t: "t = ts ! k"
      by auto
    from P have shf: "has_shape3 f n0 n1 nt" by (simp add: P_def)
    have gr: "get_row Rre i j = Inr (Rre ! i ! j)" "get_row Rim i j = Inr (Rim ! i ! j)"
      using sh i j by (simp_all add: get_row_ok)
    from set_elem3_ok [OF shf i j k, of "V i j k"]
    obtain f' where f': "set_elem3 f i j k (V i j k) = Inr f'" "has_shape3 f' n0 n1 nt"
      "\<forall>i'<n0. \<forall>j'<n1. \<forall>k'<nt.
         f' ! i' ! j' ! k' = (if i' = i \<and> j' = j \<and> k' = k then V i j k else f ! i' ! j' ! k')"
      by auto
    have "body p f = set_elem3 f i j k (V i j k)"
      unfolding pe body_def ex_irf_step_def V_def t
      by (simp add: gr Let_def)
    then have body: "body p f = Inr f'" by (simp add: f'(1))
    have "f' ! fst (snd q) ! snd (snd q) ! fst (fst q) = V (fst (snd q)) (snd (snd q)) (fst (fst q))"
      if q: "q \<in> set (pre @ [p])" for q
    proof -
      from q P p have qi: "q \<in> set idx" by (auto simp: P_def)
      from in_idx [OF qi]
      have rng: "fst (snd q) < n0" "snd (snd q) < n1" "fst (fst q) < nt" by auto
      show ?thesis
      proof (cases "fst (snd q) = i \<and> snd (snd q) = j \<and> fst (fst q) = k")
        case True
        then show ?thesis using f'(3) i j k by simp
      next
        case False
        with q pe have qp: "q \<in> set pre" by auto
        from f'(3) rng False
        have "f' ! fst (snd q) ! snd (snd q) ! fst (fst q) = f ! fst (snd q) ! snd (snd q) ! fst (fst q)"
          by auto
        with P qp show ?thesis by (auto simp: P_def)
      qed
    qed
    moreover have "set (pre @ [p]) \<subseteq> set idx" using P p by (auto simp: P_def)
    ultimately have "P (pre @ [p]) f'" using f'(2) unfolding P_def by simp
    with body show ?thesis by blast
  qed
  have P0: "P [] (zeros3 n0 n1 nt)"
    by (simp add: P_def has_shape3_zeros3)
  have "\<exists>f. for_each idx body (zeros3 n0 n1 nt) = Inr f \<and> P idx f"
    by (rule for_each_rule [of P "zeros3 n0 n1 nt" idx body]) (rule P0, rule step)
  then obtain f where f: "for_each idx body (zeros3 n0 n1 nt) = Inr f" "P idx f"
    by auto
  have flat: "for_each (enumerate 0 ts) (\<lambda>tt. for_each [0..<n0] (\<lambda>i. for_each [0..<n1]
                     (ex_irf_step (Rre, Rim) irf_w tt i))) s
              = for_each idx body s" for s
  proof -
    have inner: "(\<lambda>tt. for_each [0..<n0] (\<lambda>i. for_each [0..<n1] (ex_irf_step (Rre, Rim) irf_w tt i)))
          = (\<lambda>tt. for_each (List.product [0..<n0] [0..<n1])
                     (\<lambda>q. ex_irf_step (Rre, Rim) irf_w tt (fst q) (snd q)))"
      by (intro ext) (rule for_each_product)
    show ?thesis unfolding inner idx_def body_def by (rule for_each_product)
  qed
  have res: "\<forall>i<n0. \<forall>j<n1. \<forall>k<length ts. f ! i ! j ! k = V i j k"
  proof (intro allI impI)
    fix i j k assume "i < n0" "j < n1" "k < length ts"
    then have "((k, ts ! k), (i, j)) \<in> set idx"
      by (simp add: idx_def in_set_enumerate_eq)
    with f(2) show "f ! i ! j ! k = V i j k" by (force simp: P_def)
  qed
  have run: "for_each (enumerate 0 ts) (\<lambda>tt. for_each [0..<n0] (\<lambda>i. for_each [0..<n1]
                     (ex_irf_step (Rre, Rim) irf_w tt i))) (zeros3 n0 n1 (length ts)) = Inr f"
    using f(1) unfolding flat nt_def .
  from run res show ?thesis unfolding V_def by blast
qed

lemma ex_integrand_map:
  "np_trapz (map (\<lambda>x. x * (1 / pi))
                        (map2 (-) (map2 (*) (map g ws) (map (\<lambda>om. cos (om * t)) ws))
                                  (map2 (*) (map h ws) (map (\<lambda>om. sin (om * t)) ws)))) ws
     = trapezoid (\<lambda>om. 1 / pi * (g om * cos (om * t) - h om * sin (om * t))) ws"
proof -
  have "map (\<lambda>x. x * (1 / pi))
                        (map2 (-) (map2 (*) (map g ws) (map (\<lambda>om. cos (om * t)) ws))
                                  (map2 (*) (map h ws) (map (\<lambda>om. sin (om * t)) ws)))
        = map (\<lambda>om. 1 / pi * (g om * cos (om * t) - h om * sin (om * t))) ws"
    by (induction ws) simp_all
  then show ?thesis by (simp only: np_trapz_map)
qed

lemma calc_irf_excitation_run:
  assumes mn: "np_min (w self) = Inr lo" and mx: "np_max (w self) = Inr hi"
    and fg: "flip_grid (w self) = Inr (w_tmp, flip)"
    and interp: "for_each [0..<shape0 (ex_mag self)] (\<lambda>i. for_each [0..<shape1 (ex_mag self)]
                 (ex_interpolate self w_tmp flip (linspace lo hi n_w) i))
                 (zeros3 (shape0 (ex_mag self)) (shape1 (ex_mag self)) (length (linspace lo hi n_w)),
                  zeros3 (shape0 (ex_mag self)) (shape1 (ex_mag self)) (length (linspace lo hi n_w)))
                = Inr R"
    and quad: "for_each (enumerate 0 (linspace (- t_length) t_length n_t))
                 (\<lambda>tt. for_each [0..<shape0 (ex_mag self)] (\<lambda>i. for_each [0..<shape1 (ex_mag self)]
                     (ex_irf_step R (linspace lo hi n_w) tt i)))
                  (zeros3 (shape0 (ex_mag self)) (shape1 (ex_mag self))
                     (length (linspace (- t_length) t_length n_t)))
                = Inr f"
  shows "calc_irf_excitation self t_length n_t n_w =
           Inr (self\<lparr>ex_irf_t := linspace (- t_length) t_length n_t,
                     ex_irf_w := linspace lo hi n_w, ex_irf_f := f\<rparr>)"
  by (simp add: calc_irf_excitation_def Let_def mn mx fg interp quad)

lemma calc_irf_excitation_ascending:
  assumes asc: "sorted_wrt (<) (w self)" and len: "2 \<le> length (w self)"
    and re: "has_shape3 (ex_re self) (shape0 (ex_mag self)) (shape1 (ex_mag self))
               (length (w self))"
    and im: "has_shape3 (ex_im self) (shape0 (ex_mag self)) (shape1 (ex_mag self))
               (length (w self))"
  shows "\<exists>self'. calc_irf_excitation self t_length n_t n_w = Inr self'
      \<and> ex_irf_t self' = uniform_grid (- t_length) t_length n_t
      \<and> ex_irf_w self' = uniform_grid (Min (set (w self))) (Max (set (w self))) n_w
      \<and> (\<forall>i<shape0 (ex_mag self). \<forall>j<shape1 (ex_mag self). \<forall>k<n_t.
           ex_irf_f self' ! i ! j ! k =
             trapezoid (\<lambda>om. 1 / pi *
                 (piecewise_linear (ascending_nodes (w self) (ex_re self ! i ! j)) om
                    * cos (om * (uniform_grid (- t_length) t_length n_t ! k))
                - piecewise_linear (ascending_nodes (w self) (ex_im self ! i ! j)) om
                    * sin (om * (uniform_grid (- t_length) t_length n_t ! k))))
               (uniform_grid (Min (set (w self))) (Max (set (w self))) n_w))"
proof -
  define n0 where "n0 = shape0 (ex_mag self)"
  define n1 where "n1 = shape1 (ex_mag self)"
  define lo where "lo = Min (set (w self))"
  define hi where "hi = Max (set (w self))"
  define gw where "gw = uniform_grid lo hi n_w"
  define gt where "gt = uniform_grid (- t_length) t_length n_t"
  from len have ne: "w self \<noteq> []" by auto
  have mn: "np_min (w self) = Inr lo" and mx: "np_max (w self) = Inr hi"
    using ne by (simp_all add: np_min_eq np_max_eq lo_def hi_def)
  have lohi: "lo \<le> hi" unfolding lo_def hi_def using ne by simp
  from len obtain a b r where ws: "w self = a # b # r"
    by (cases "w self"; cases "tl (w self)") auto
  from asc have ab: "a < b" unfolding ws by simp
  have fg: "flip_grid (w self) = Inr (w self, False)"
    using ab unfolding ws by (simp add: flip_grid_def)
  have nd: "\<not> sorted_wrt (>) (w self)"
    using ab unfolding ws by simp
  have nodes: "ascending_nodes (w self) ys = zip (w self) ys" for ys
    using asc nd by (rule ascending_nodes_asc)
  have hl: "hd (w self) = lo" "last (w self) = hi"
    using strict_sorted_hd_Min [OF asc ne] by (simp_all add: lo_def hi_def)
  have bounds: "\<forall>v \<in> set gw. hd (w self) \<le> v \<and> v \<le> last (w self)"
    unfolding hl gw_def using uniform_grid_bounds [OF lohi] by blast
  from ex_interpolate_loop [OF re [folded n0_def n1_def] im [folded n0_def n1_def] asc len bounds]
  obtain Rre Rim where R: "for_each [0..<n0] (\<lambda>i. for_each [0..<n1]
                 (ex_interpolate self (w self) False gw i))
                 (zeros3 n0 n1 (length gw), zeros3 n0 n1 (length gw)) = Inr (Rre, Rim)"
     "has_shape3 Rre n0 n1 (length gw)" "has_shape3 Rim n0 n1 (length gw)"
     "\<forall>i<n0. \<forall>j<n1.
                 Rre ! i ! j = map (piecewise_linear (zip (w self) (ex_re self ! i ! j))) gw
               \<and> Rim ! i ! j = map (piecewise_linear (zip (w self) (ex_im self ! i ! j))) gw"
    by blast
  from ex_irf_loop [OF R(2,3), of gt gw]
  obtain f where f: "for_each (enumerate 0 gt) (\<lambda>tt. for_each [0..<n0] (\<lambda>i. for_each [0..<n1]
                     (ex_irf_step (Rre, Rim) gw tt i))) (zeros3 n0 n1 (length gt)) = Inr f"
     "\<forall>i<n0. \<forall>j<n1. \<forall>k<length gt.
                 f ! i ! j ! k
                   = np_trapz (map (\<lambda>x. x * (1 / pi))
                        (map2 (-) (map2 (*) (Rre ! i ! j) (map (\<lambda>om. cos (om * (gt ! k))) gw))
                                  (map2 (*) (Rim ! i ! j) (map (\<lambda>om. sin (om * (gt ! k))) gw)))) gw"
    by blast
  let ?self' = "self\<lparr>ex_irf_t := linspace (- t_length) t_length n_t,
                     ex_irf_w := linspace lo hi n_w, ex_irf_f := f\<rparr>"
  have run: "calc_irf_excitation self t_length n_t n_w = Inr ?self'"
    by (rule calc_irf_excitation_run [OF mn mx fg])
       (use R(1) f(1) in \<open>simp_all only: linspace_uniform gw_def gt_def n0_def n1_def\<close>)
  have vals: "f ! i ! j ! k =
             trapezoid (\<lambda>om. 1 / pi *
                 (piecewise_linear (ascending_nodes (w self) (ex_re self ! i ! j)) om
                    * cos (om * (gt ! k))
                - piecewise_linear (ascending_nodes (w self) (ex_im self ! i ! j)) om
                    * sin (om * (gt ! k)))) gw"
    if "i < n0" "j < n1" "k < n_t" for i j k
  proof -
    from that have k: "k < length gt" by (simp add: gt_def)
    have Rij: "Rre ! i ! j = map (piecewise_linear (ascending_nodes (w self) (ex_re self ! i ! j))) gw"
      "Rim ! i ! j = map (piecewise_linear (ascending_nodes (w self) (ex_im self ! i ! j))) gw"
      using R(4) that by (simp_all add: nodes)
    from f(2) that(1,2) k
    have "f ! i ! j ! k = np_trapz (map (\<lambda>x. x * (1 / pi))
                        (map2 (-) (map2 (*) (Rre ! i ! j) (map (\<lambda>om. cos (om * (gt ! k))) gw))
                                  (map2 (*) (Rim ! i ! j) (map (\<lambda>om. sin (om * (gt ! k))) gw)))) gw"
      by blast
    then show ?thesis unfolding Rij ex_integrand_map .
  qed
  show ?thesis
  proof (intro exI conjI)
    show "calc_irf_excitation self t_length n_t n_w = Inr ?self'" by (rule run)
    show "ex_irf_t ?self' = uniform_grid (- t_length) t_length n_t"
      by (simp add: linspace_uniform)
    show "ex_irf_w ?self' = uniform_grid (Min (set (w self))) (Max (set (w self))) n_w"
      by (simp add: linspace_uniform lo_def hi_def)
    show "\<forall>i<shape0 (ex_mag self). \<forall>j<shape1 (ex_mag self). \<forall>k<n_t.
           ex_irf_f ?self' ! i ! j ! k =
             trapezoid (\<lambda>om. 1 / pi *
                 (piecewise_linear (ascending_nodes (w self) (ex_re self ! i ! j)) om
                    * cos (om * (uniform_grid (- t_length) t_length n_t ! k))
                - piecewise_linear (ascending_nodes (w self) (ex_im self ! i ! j)) om
                    * sin (om * (uniform_grid (- t_length) t_length n_t ! k))))
               (uniform_grid (Min (set (w self))) (Max (set (w self))) n_w)"
      using vals unfolding gw_def gt_def lo_def hi_def n0_def n1_def by simp
  qed
qed

text \<open>
  C1 fails for \<open>calc_irf_excitation\<close>. On the descending store the flipped branch reads
  the imaginary slice from \<open>self.rd.im\<close>, an attribute that was never set, and the method
  raises \<open>AttributeError\<close>; on the equivalent ascending store (grid and slices reversed)
  it returns the impulse response. For \<open>calc_irf_radiation\<close> the two stores give the same
  result, by \<open>calc_irf_radiation_descending\<close>.
\<close>

theorem descending_excitation_differs:
  "ascending_equivalent example_descending = example_store
   \<and> calc_irf_excitation example_descending 0 1 2 = Inl AttributeError
   \<and> calc_irf_excitation example_store 0 1 2 =
       Inr (example_store\<lparr>ex_irf_t := [0], ex_irf_w := [1, 2],
                           ex_irf_f := [[[3 / (2 * pi)]]]\<rparr>)"
proof (intro conjI)
  show "ascending_equivalent example_descending = example_store"
    by (simp add: ascending_equivalent_def example_descending_def example_store_def)
  show "calc_irf_excitation example_descending 0 1 2 = Inl AttributeError"
    by (simp add: calc_irf_excitation_def example_descending_def example_store_def
        np_min_def np_max_def flip_grid_def flipud_def Let_def shape0_def shape1_def
        linspace_1 linspace_2 zeros3_def zeros2_def zeros1_def
        ex_interpolate_def ex_slices_def get_row_def)
  show "calc_irf_excitation example_store 0 1 2 =
       Inr (example_store\<lparr>ex_irf_t := [0], ex_irf_w := [1, 2],
                           ex_irf_f := [[[3 / (2 * pi)]]]\<rparr>)"
    by (simp add: calc_irf_excitation_def example_store_def np_min_def np_max_def
        flip_grid_def flipud_def Let_def shape0_def shape1_def linspace_1 linspace_2
        zeros3_def zeros2_def zeros1_def ex_interpolate_def ex_slices_def get_row_def
        set_row_def interp1d_def linear_at_def searchsorted_def
        ex_irf_step_def set_elem3_def np_trapz_def np_diff_def)
qed

text \<open>
  C5 fails on a descending grid for the same reason. When \<open>rd.im\<close> has been set, the
  method returns, but the imaginary channel in the quadrature is the one of \<open>rd.im\<close>:
  with \<open>t_length = pi / 2\<close> and two samples each, the method stores
  \<open>- 1 / (2 * pi)\<close> at the second time sample, where the quadrature of the real and
  imaginary excitation channels is \<open>- 5 / (2 * pi)\<close>.
\<close>

theorem descending_excitation_wrong_channel:
  "calc_irf_excitation example_descending_rd_im (pi / 2) 2 2 =
     Inr (example_descending_rd_im\<lparr>ex_irf_t := [- (pi / 2), pi / 2], ex_irf_w := [1, 2],
            ex_irf_f := [[[- 1 / (2 * pi), - 1 / (2 * pi)]]]\<rparr>)
   \<and> trapezoid (\<lambda>om. 1 / pi *
         (piecewise_linear (ascending_nodes (w example_descending_rd_im)
                              (ex_re example_descending_rd_im ! 0 ! 0)) om * cos (om * (pi / 2))
        - piecewise_linear (ascending_nodes (w example_descending_rd_im)
                              (ex_im example_descending_rd_im ! 0 ! 0)) om * sin (om * (pi / 2))))
       (uniform_grid 1 2 2) = - 5 / (2 * pi)"
proof
  show "calc_irf_excitation example_descending_rd_im (pi / 2) 2 2 =
     Inr (example_descending_rd_im\<lparr>ex_irf_t := [- (pi / 2), pi / 2], ex_irf_w := [1, 2],
            ex_irf_f := [[[- 1 / (2 * pi), - 1 / (2 * pi)]]]\<rparr>)"
    by (simp add: example_descending_rd_im_def calc_irf_excitation_def example_descending_def
        example_store_def np_min_def np_max_def flip_grid_def flipud_def Let_def
        shape0_def shape1_def linspace_1 linspace_2 zeros3_def zeros2_def zeros1_def
        ex_interpolate_def ex_slices_def get_row_def set_row_def interp1d_def linear_at_def
        searchsorted_def ex_irf_step_def set_elem3_def np_trapz_def np_diff_def)
  show "trapezoid (\<lambda>om. 1 / pi *
         (piecewise_linear (ascending_nodes (w example_descending_rd_im)
                              (ex_re example_descending_rd_im ! 0 ! 0)) om * cos (om * (pi / 2))
        - piecewise_linear (ascending_nodes (w example_descending_rd_im)
                              (ex_im example_descending_rd_im ! 0 ! 0)) om * sin (om * (pi / 2))))
       (uniform_grid 1 2 2) = - 5 / (2 * pi)"
    by (simp add: example_descending_rd_im_def example_descending_def example_store_def
        ascending_nodes_def uniform_grid_2)
qed

section \<open>The order search\<close>

lemma smult_one [simp]: "smult 1 a = a"
  by (simp add: smult_def map_idI)

lemma R2T_le_one: "realize lib dt numFreq Kij r2bt ss = Inr r \<Longrightarrow> R2T r \<le> 1"
  by (auto simp: realize_def Let_def split: sum.splits prod.splits)


lemma order_search_general:
  assumes "order_search lib dt numFreq Kij r2bt thr max_order s0 = (ss, out)"
  shows "s0 \<le> ss
    \<and> (\<forall>k. s0 \<le> k \<and> k < ss \<longrightarrow>
          (\<exists>r'. realize lib dt numFreq Kij r2bt k = Inr r' \<and> R2T r' < thr \<and> k \<noteq> max_order))
    \<and> (case out of
          Inl e \<Rightarrow> realize lib dt numFreq Kij r2bt ss = Inl e
        | Inr (status, r) \<Rightarrow>
            realize lib dt numFreq Kij r2bt ss = Inr r
            \<and> (status = 1 \<and> thr \<le> R2T r \<or> status = 2 \<and> R2T r < thr \<and> ss = max_order))
    \<and> (s0 \<le> max_order \<longrightarrow> ss \<le> max_order)"
  using assms
proof (induction lib dt numFreq Kij r2bt thr max_order s0 rule: order_search.induct)
  case (1 lib dt numFreq Kij r2bt thr max_order s0)
  show ?case
  proof (cases "realize lib dt numFreq Kij r2bt s0")
    case (Inl e)
    then have "order_search lib dt numFreq Kij r2bt thr max_order s0 = (s0, Inl e)"
      by (subst order_search.simps) simp
    with "1.prems" Inl show ?thesis by auto
  next
    case (Inr r)
    show ?thesis
    proof (cases "thr \<le> R2T r")
      case True
      with Inr have "order_search lib dt numFreq Kij r2bt thr max_order s0 = (s0, Inr (1, r))"
        by (subst order_search.simps) simp
      with "1.prems" Inr True show ?thesis by auto
    next
      case False
      note nthr = this
      show ?thesis
      proof (cases "s0 = max_order")
        case True
        with Inr nthr
        have "order_search lib dt numFreq Kij r2bt thr max_order s0 = (s0, Inr (2, r))"
          by (subst order_search.simps) simp
        with "1.prems" Inr nthr True show ?thesis by auto
      next
        case False
        from Inr nthr False
        have "order_search lib dt numFreq Kij r2bt thr max_order s0
              = order_search lib dt numFreq Kij r2bt thr max_order (s0 + 1)"
          by (subst order_search.simps) simp
        with "1.prems"
        have rec: "order_search lib dt numFreq Kij r2bt thr max_order (s0 + 1) = (ss, out)"
          by simp
        from "1.IH" [OF Inr nthr False rec]
        have IH: "s0 + 1 \<le> ss"
          "\<forall>k. s0 + 1 \<le> k \<and> k < ss \<longrightarrow>
            (\<exists>r'. realize lib dt numFreq Kij r2bt k = Inr r' \<and> R2T r' < thr \<and> k \<noteq> max_order)"
          "case out of
             Inl e \<Rightarrow> realize lib dt numFreq Kij r2bt ss = Inl e
           | Inr (status, r) \<Rightarrow>
               realize lib dt numFreq Kij r2bt ss = Inr r
               \<and> (status = 1 \<and> thr \<le> R2T r \<or> status = 2 \<and> R2T r < thr \<and> ss = max_order)"
          "s0 + 1 \<le> max_order \<longrightarrow> ss \<le> max_order"
          by auto
        have "\<exists>r'. realize lib dt numFreq Kij r2bt k = Inr r' \<and> R2T r' < thr \<and> k \<noteq> max_order"
          if "s0 \<le> k" "k < ss" for k
        proof (cases "k = s0")
          case True
          with Inr nthr False show ?thesis by auto
        next
          case False
          with that IH(2) show ?thesis by auto
        qed
        moreover have "s0 \<le> max_order \<longrightarrow> ss \<le> max_order"
          using IH(4) False by auto
        ultimately show ?thesis using IH(1,3) by auto
      qed
    qed
  qed
qed

lemma upt3: "[0..<3] = [0, Suc 0, 2]"
  by (simp add: numeral_3_eq_3 numeral_2_eq_2)

lemma example_discrete:
  "discrete_realization example_linalg 1 3 [0, 0, 1] 2 = Inr ([[0, 0], [1, 0]], [[1], [0]], [[0, 1]], 0)"
  by (simp add: discrete_realization_def example_linalg_def hankel_def upt2 Let_def
      dot_def mat_times_def col_mat_def row_mat_def)

lemma example_bilinear:
  "bilinear example_linalg 1 2 [[0, 0], [1, 0]] [[1], [0]] [[0, 1]] 0
     = Inr ([[- 2, 0], [4, - 2]], [[2], [- 2]], [[- 2, 2]], [[1]])"
  by (simp add: bilinear_def example_linalg_def inv2_def eye_def upt2 Let_def
      dot_def mat_sub_def smult_def sadd_def)

lemma example_response:
  "map_err (\<lambda>jj. item (dot (dot [[- 2, 2]] (expm example_linalg (smult (1 * real jj) [[- 2, 0], [4, - 2]]))) [[2], [- 2]]))
             [0..<3] = Inr [- 8, 8 * exp (- 2), 24 * exp (- 4)]"
  by (simp add: example_linalg_def expm2_def upt3 dot_def smult_def item_def)

section \<open>Writing the realization into the store\<close>

lemma for_each_inv_aux:
  assumes "for_each ys body t = Inr s'" "xs = pre @ ys" "P pre t"
    and "\<And>pre x suf t t'. xs = pre @ x # suf \<Longrightarrow> P pre t \<Longrightarrow> body x t = Inr t'
           \<Longrightarrow> P (pre @ [x]) t'"
  shows "P xs s'"
  using assms(1-3)
proof (induction ys arbitrary: pre t)
  case Nil
  then show ?case by simp
next
  case (Cons y ys)
  from Cons.prems(1) obtain t1 where t1: "body y t = Inr t1" "for_each ys body t1 = Inr s'"
    by (auto split: sum.splits)
  have "P (pre @ [y]) t1"
    by (rule assms(4) [OF Cons.prems(2) Cons.prems(3) t1(1)])
  moreover have "xs = (pre @ [y]) @ ys" using Cons.prems(2) by simp
  ultimately show ?case using Cons.IH [OF t1(2)] by blast
qed

lemma for_each_inv:
  assumes "for_each xs body s = Inr s'" "P [] s"
    and "\<And>pre x suf t t'. xs = pre @ x # suf \<Longrightarrow> P pre t \<Longrightarrow> body x t = Inr t'
           \<Longrightarrow> P (pre @ [x]) t'"
  shows "P xs s'"
proof (rule for_each_inv_aux [where ys = xs and pre = "[]" and P = P and t = s and body = body])
  show "for_each xs body s = Inr s'" by fact
  show "xs = [] @ xs" by simp
  show "P [] s" by fact
  fix pre x suf t t'
  assume "xs = pre @ x # suf" "P pre t" "body x t = Inr t'"
  then show "P (pre @ [x]) t'" by (rule assms(3))
qed

lemma upd2_same: "i < length a \<Longrightarrow> j < length (a ! i) \<Longrightarrow> upd2 a i j x ! i ! j = x"
  by (simp add: upd2_def)

lemma upd2_other: "i' \<noteq> i \<or> j' \<noteq> j \<Longrightarrow> upd2 a i j x ! i' ! j' = a ! i' ! j'"
  by (cases "i < length a"; cases "i' = i") (auto simp: upd2_def list_update_beyond)

lemma length_upd2 [simp]: "length (upd2 a i j x) = length a"
  by (simp add: upd2_def)

lemma length_upd2_nth [simp]: "length (upd2 a i j x ! i') = length (a ! i')"
  by (cases "i < length a"; cases "i' = i") (auto simp: upd2_def list_update_beyond)

lemma set_row_upd2:
  "set_row a i j v = Inr a' \<Longrightarrow> a' = upd2 a i j v \<and> i < length a \<and> j < length (a ! i)"
  by (auto simp: set_row_def upd2_def split: if_splits)

lemma set_elem2_upd2:
  "set_elem2 a i j x = Inr a' \<Longrightarrow> a' = upd2 a i j x \<and> i < length a \<and> j < length (a ! i)"
  by (auto simp: set_elem2_def upd2_def split: if_splits)

lemma set_block_upd2:
  "set_block a i j nr nc blk = Inr a' \<Longrightarrow>
     a' = upd2 a i j (write_block (a ! i ! j) blk) \<and> i < length a \<and> j < length (a ! i)
     \<and> length blk = min nr (length (a ! i ! j))
     \<and> (\<forall>row \<in> set blk. length row = min nc (shape1 (a ! i ! j)))"
  by (auto simp: set_block_def upd2_def Let_def split: if_splits)

lemma write_realization_result:
  assumes "write_realization st i j ss status r = Inr st'"
  shows "st' = st\<lparr>rd_ss_A := upd2 (rd_ss_A st) i j (write_block (rd_ss_A st ! i ! j) (ac r)),
                  rd_ss_B := upd2 (rd_ss_B st) i j
                               (write_block (rd_ss_B st ! i ! j) (col_mat (map hd (bc r)))),
                  rd_ss_C := upd2 (rd_ss_C st) i j
                               (write_block (rd_ss_C st ! i ! j) (row_mat (hd (cc r)))),
                  rd_ss_D := upd2 (rd_ss_D st) i j (concat (dc r)),
                  rd_ss_irk_bss := upd2 (rd_ss_irk_bss st) i j (k_ss_est r),
                  rd_ss_rad_conv := upd2 (rd_ss_rad_conv st) i j (real status),
                  rd_ss_it := upd2 (rd_ss_it st) i j (real ss),
                  rd_ss_r2t := upd2 (rd_ss_r2t st) i j (R2T r)\<rparr>"
    and "i < length (rd_ss_A st)" "j < length (rd_ss_A st ! i)"
    and "length (ac r) \<le> length (rd_ss_A st ! i ! j)"
    and "\<forall>row \<in> set (ac r). length row = min (length (ac r)) (shape1 (rd_ss_A st ! i ! j))"
    and "length (bc r) \<le> length (rd_ss_B st ! i ! j)"
    and "length (hd (cc r)) = min (shape1 (cc r)) (shape1 (rd_ss_C st ! i ! j))"
    and "cc r \<noteq> []"
proof -
  from assms obtain A' bc0 B' cc0 ccr C' D' irk' conv' r2t' it' where
    w: "set_block (rd_ss_A st) i j (length (ac r)) (length (ac r)) (ac r) = Inr A'"
       "col0 (bc r) = Inr bc0"
       "set_block (rd_ss_B st) i j (length (bc r)) 1 (col_mat bc0) = Inr B'"
       "cc r = cc0 # ccr"
       "set_block (rd_ss_C st) i j 1 (shape1 (cc r)) (row_mat cc0) = Inr C'"
       "set_row (rd_ss_D st) i j (concat (dc r)) = Inr D'"
       "set_row (rd_ss_irk_bss st) i j (k_ss_est r) = Inr irk'"
       "set_elem2 (rd_ss_rad_conv st) i j (real status) = Inr conv'"
       "set_elem2 (rd_ss_r2t st) i j (R2T r) = Inr r2t'"
       "set_elem2 (rd_ss_it st) i j (real ss) = Inr it'"
       and st': "st' = st\<lparr>rd_ss_A := A', rd_ss_B := B', rd_ss_C := C', rd_ss_D := D',
                    rd_ss_irk_bss := irk', rd_ss_rad_conv := conv',
                    rd_ss_it := it', rd_ss_r2t := r2t'\<rparr>"
    unfolding write_realization_def by (auto split: sum.splits list.splits)
  from w(2) have bc0: "bc0 = map hd (bc r)" by (auto simp: col0_def split: if_splits)
  from w(4) have cc0: "cc0 = hd (cc r)" by simp
  note A = set_block_upd2 [OF w(1)] and B = set_block_upd2 [OF w(3)]
    and C = set_block_upd2 [OF w(5)]
  show "st' = st\<lparr>rd_ss_A := upd2 (rd_ss_A st) i j (write_block (rd_ss_A st ! i ! j) (ac r)),
                  rd_ss_B := upd2 (rd_ss_B st) i j
                               (write_block (rd_ss_B st ! i ! j) (col_mat (map hd (bc r)))),
                  rd_ss_C := upd2 (rd_ss_C st) i j
                               (write_block (rd_ss_C st ! i ! j) (row_mat (hd (cc r)))),
                  rd_ss_D := upd2 (rd_ss_D st) i j (concat (dc r)),
                  rd_ss_irk_bss := upd2 (rd_ss_irk_bss st) i j (k_ss_est r),
                  rd_ss_rad_conv := upd2 (rd_ss_rad_conv st) i j (real status),
                  rd_ss_it := upd2 (rd_ss_it st) i j (real ss),
                  rd_ss_r2t := upd2 (rd_ss_r2t st) i j (R2T r)\<rparr>"
    using A B C set_row_upd2 [OF w(6)] set_row_upd2 [OF w(7)] set_elem2_upd2 [OF w(8)]
      set_elem2_upd2 [OF w(9)] set_elem2_upd2 [OF w(10)]
    unfolding st' bc0 cc0 by simp
  show "i < length (rd_ss_A st)" "j < length (rd_ss_A st ! i)" using A by simp_all
  show "length (ac r) \<le> length (rd_ss_A st ! i ! j)" using A by linarith
  show "\<forall>row \<in> set (ac r). length row = min (length (ac r)) (shape1 (rd_ss_A st ! i ! j))"
    using A by simp
  have "length (bc r) = min (length (bc r)) (length (rd_ss_B st ! i ! j))"
    using B unfolding bc0 by (simp add: col_mat_def)
  then show "length (bc r) \<le> length (rd_ss_B st ! i ! j)" by linarith
  show "length (hd (cc r)) = min (shape1 (cc r)) (shape1 (rd_ss_C st ! i ! j))"
    using C unfolding cc0 by (simp add: row_mat_def)
  show "cc r \<noteq> []" using w(4) by simp
qed

section \<open>The loops over the pairs\<close>

lemma shape1_zeros2: "shape1 (zeros2 m n) = (if m = 0 then 0 else n)"
  by (cases m) (simp_all add: shape1_def zeros2_def zeros1_def)

lemma length_zeros2 [simp]: "length (zeros2 m n) = m"
  by (simp add: zeros2_def)

lemma slot_frame:
  assumes "rd_ss_A st' ! i ! j = rd_ss_A st ! i ! j" "rd_ss_B st' ! i ! j = rd_ss_B st ! i ! j"
    "rd_ss_C st' ! i ! j = rd_ss_C st ! i ! j" "rd_ss_D st' ! i ! j = rd_ss_D st ! i ! j"
    "rd_ss_irk_bss st' ! i ! j = rd_ss_irk_bss st ! i ! j"
    "rd_ss_rad_conv st' ! i ! j = rd_ss_rad_conv st ! i ! j"
    "rd_ss_it st' ! i ! j = rd_ss_it st ! i ! j" "rd_ss_r2t st' ! i ! j = rd_ss_r2t st ! i ! j"
  shows "slot_zero st' mo nf i j = slot_zero st mo nf i j"
    and "slot_written st' mo nf i j ss status r = slot_written st mo nf i j ss status r"
    and "pair_done lib K dt nf mo thr st' i j = pair_done lib K dt nf mo thr st i j"
proof -
  show z: "slot_zero st' mo nf i j = slot_zero st mo nf i j"
    unfolding slot_zero_def assms ..
  show w: "slot_written st' mo nf i j ss status r = slot_written st mo nf i j ss status r"
    for ss status r
    unfolding slot_written_def assms ..
  show "pair_done lib K dt nf mo thr st' i j = pair_done lib K dt nf mo thr st i j"
    unfolding pair_done_def z w ..
qed

lemma write_realization_other:
  assumes "write_realization st i j ss status r = Inr st'" "i' \<noteq> i \<or> j' \<noteq> j"
  shows "rd_ss_A st' ! i' ! j' = rd_ss_A st ! i' ! j'" "rd_ss_B st' ! i' ! j' = rd_ss_B st ! i' ! j'"
    "rd_ss_C st' ! i' ! j' = rd_ss_C st ! i' ! j'" "rd_ss_D st' ! i' ! j' = rd_ss_D st ! i' ! j'"
    "rd_ss_irk_bss st' ! i' ! j' = rd_ss_irk_bss st ! i' ! j'"
    "rd_ss_rad_conv st' ! i' ! j' = rd_ss_rad_conv st ! i' ! j'"
    "rd_ss_it st' ! i' ! j' = rd_ss_it st ! i' ! j'" "rd_ss_r2t st' ! i' ! j' = rd_ss_r2t st ! i' ! j'"
  unfolding write_realization_result(1) [OF assms(1)]
  by (simp_all add: upd2_other [OF assms(2)])

lemma write_realization_keeps:
  assumes "write_realization st i j ss status r = Inr st'"
  shows "rd_irf_K st' = rd_irf_K st"
    and "containers st n1 \<Longrightarrow> containers st' n1"
  unfolding write_realization_result(1) [OF assms(1)] containers_def
  by simp_all

lemma write_realization_slot:
  assumes wr: "write_realization st i j ss status r = Inr st'"
    and c: "containers st n1" and z: "slot_zero st mo nf i j"
  shows "i < 6" "j < n1" "slot_written st' mo nf i j ss status r"
proof -
  note W = write_realization_result [OF wr]
  from W(2) c show i6: "i < 6" by (simp add: containers_def)
  with W(3) c show jn: "j < n1" by (simp add: containers_def)
  from z have zA: "rd_ss_A st ! i ! j = zeros2 mo mo" and zB: "rd_ss_B st ! i ! j = zeros2 mo 1"
    and zC: "rd_ss_C st ! i ! j = zeros2 1 mo"
    by (simp_all add: slot_zero_def)
  have lenA: "length (ac r) \<le> mo" using W(4) by (simp add: zA)
  have rowsA: "\<forall>row \<in> set (ac r). length row = length (ac r)"
  proof (cases "mo = 0")
    case True
    with lenA show ?thesis by simp
  next
    case False
    with W(5) lenA show ?thesis by (simp add: zA shape1_zeros2)
  qed
  have lenB: "length (bc r) \<le> mo" using W(6) by (simp add: zB)
  have lenC: "shape1 (cc r) \<le> mo"
  proof -
    from W(8) have "shape1 (cc r) = length (hd (cc r))"
      by (cases "cc r") (simp_all add: shape1_def)
    with W(7) show ?thesis by (simp add: zC shape1_zeros2)
  qed
  from c i6 jn have sizes:
      "i < length (rd_ss_A st)" "j < length (rd_ss_A st ! i)"
      "i < length (rd_ss_B st)" "j < length (rd_ss_B st ! i)"
      "i < length (rd_ss_C st)" "j < length (rd_ss_C st ! i)"
      "i < length (rd_ss_D st)" "j < length (rd_ss_D st ! i)"
      "i < length (rd_ss_irk_bss st)" "j < length (rd_ss_irk_bss st ! i)"
      "i < length (rd_ss_rad_conv st)" "j < length (rd_ss_rad_conv st ! i)"
      "i < length (rd_ss_it st)" "j < length (rd_ss_it st ! i)"
      "i < length (rd_ss_r2t st)" "j < length (rd_ss_r2t st ! i)"
    by (simp_all add: containers_def)
  have e: "rd_ss_A st' ! i ! j = write_block (zeros2 mo mo) (ac r)"
    "rd_ss_B st' ! i ! j = write_block (zeros2 mo 1) (col_mat (map hd (bc r)))"
    "rd_ss_C st' ! i ! j = write_block (zeros2 1 mo) (row_mat (hd (cc r)))"
    "rd_ss_D st' ! i ! j = concat (dc r)"
    "rd_ss_irk_bss st' ! i ! j = k_ss_est r"
    "rd_ss_rad_conv st' ! i ! j = real status"
    "rd_ss_it st' ! i ! j = real ss"
    "rd_ss_r2t st' ! i ! j = R2T r"
    unfolding W(1) by (simp_all add: upd2_same sizes zA zB zC)
  show "slot_written st' mo nf i j ss status r"
    unfolding slot_written_def e using lenA rowsA lenB lenC W(8) by simp
qed

lemma ss_pair_step:
  assumes inv: "containers st n1" "rd_irf_K st = K"
    and zero: "i < 6 \<longrightarrow> slot_zero st mo nf i j"
    and run: "ss_pair lib dt nf mo thr i j st = Inr st'"
  shows "containers st' n1 \<and> rd_irf_K st' = K
    \<and> pair_done lib K dt nf mo thr st' i j
    \<and> (\<forall>i' j'. i' \<noteq> i \<or> j' \<noteq> j \<longrightarrow>
           slot_zero st' mo nf i' j' = slot_zero st mo nf i' j'
         \<and> pair_done lib K dt nf mo thr st' i' j' = pair_done lib K dt nf mo thr st i' j')"
proof -
  from run inv(2) obtain Kij where Kij: "get_row K i j = Inr Kij"
    by (auto simp: ss_pair_def split: sum.splits)
  show ?thesis
  proof (cases "reference_norm Kij = 0")
    case True
    with run inv(2) Kij have st': "st' = st" by (simp add: ss_pair_def)
    have "pair_done lib K dt nf mo thr st i j"
      unfolding pair_done_def using Kij True zero by blast
    with inv show ?thesis unfolding st' by blast
  next
    case False
    with run inv(2) Kij obtain ss status r where
      os: "order_search lib dt nf Kij (reference_norm Kij) thr mo 2 = (ss, Inr (status, r))"
      and wr: "write_realization st i j ss status r = Inr st'"
      by (auto simp: ss_pair_def Let_def split: prod.splits sum.splits)
    have i6: "i < length (rd_ss_A st)" by (rule write_realization_result(2) [OF wr])
    with inv(1) have i6: "i < 6" by (simp add: containers_def)
    with zero have z: "slot_zero st mo nf i j" by simp
    have sw: "slot_written st' mo nf i j ss status r"
      by (rule write_realization_slot(3) [OF wr inv(1) z])
    have c: "containers st' n1" by (rule write_realization_keeps(2) [OF wr inv(1)])
    have k: "rd_irf_K st' = K" using write_realization_keeps(1) [OF wr] inv(2) by simp
    have other: "slot_zero st' mo nf i' j' = slot_zero st mo nf i' j'
         \<and> pair_done lib K dt nf mo thr st' i' j' = pair_done lib K dt nf mo thr st i' j'"
      if "i' \<noteq> i \<or> j' \<noteq> j" for i' j'
    proof
      note o = write_realization_other [OF wr that]
      show "slot_zero st' mo nf i' j' = slot_zero st mo nf i' j'"
        by (rule slot_frame(1) [OF o])
      show "pair_done lib K dt nf mo thr st' i' j' = pair_done lib K dt nf mo thr st i' j'"
        by (rule slot_frame(3) [OF o])
    qed
    have "pair_done lib K dt nf mo thr st' i j"
      unfolding pair_done_def using Kij False i6 os sw by blast
    with c k other show ?thesis by blast
  qed
qed

lemma zeros_nth [simp]:
  "i < k \<Longrightarrow> zeros4 k l m n ! i = zeros3 l m n"
  "i < l \<Longrightarrow> zeros3 l m n ! i = zeros2 m n"
  "i < m \<Longrightarrow> zeros2 m n ! i = zeros1 n"
  "i < n \<Longrightarrow> zeros1 n ! i = 0"
  by (simp_all add: zeros4_def zeros3_def zeros2_def zeros1_def)

lemma zeros_length [simp]:
  "length (zeros4 k l m n) = k" "length (zeros3 l m n) = l" "length (zeros1 n) = n"
  by (simp_all add: zeros4_def zeros3_def zeros1_def)

text \<open>The store the loops of \<open>calc_ss_radiation\<close> start from.\<close>

lemma calc_ss_radiation_unfold:
  assumes "calc_ss_radiation lib self mo thr = Inr self'"
  shows "3 \<le> length (rd_irf_t self)"
    and "for_each (List.product [0..<shape0 (am_inf self)] [0..<shape1 (am_inf self)])
           (\<lambda>p. ss_pair lib (rd_irf_t self ! 2 - rd_irf_t self ! 1) (length (rd_irf_t self))
                   mo thr (fst p) (snd p))
           (self\<lparr>rd_ss_A := zeros4 6 (shape1 (am_inf self)) mo mo,
                          rd_ss_B := zeros4 6 (shape1 (am_inf self)) mo 1,
                          rd_ss_C := zeros4 6 (shape1 (am_inf self)) 1 mo,
                          rd_ss_D := zeros3 6 (shape1 (am_inf self)) 1,
                          rd_ss_irk_bss := zeros3 6 (shape1 (am_inf self)) (length (rd_irf_t self)),
                          rd_ss_rad_conv := zeros2 6 (shape1 (am_inf self)),
                          rd_ss_it := zeros2 6 (shape1 (am_inf self)),
                          rd_ss_r2t := zeros2 6 (shape1 (am_inf self))\<rparr>) = Inr self'"
proof -
  show "3 \<le> length (rd_irf_t self)"
    using assms by (simp add: calc_ss_radiation_def split: if_splits)
  then show "for_each (List.product [0..<shape0 (am_inf self)] [0..<shape1 (am_inf self)])
           (\<lambda>p. ss_pair lib (rd_irf_t self ! 2 - rd_irf_t self ! 1) (length (rd_irf_t self))
                   mo thr (fst p) (snd p))
           (self\<lparr>rd_ss_A := zeros4 6 (shape1 (am_inf self)) mo mo,
                          rd_ss_B := zeros4 6 (shape1 (am_inf self)) mo 1,
                          rd_ss_C := zeros4 6 (shape1 (am_inf self)) 1 mo,
                          rd_ss_D := zeros3 6 (shape1 (am_inf self)) 1,
                          rd_ss_irk_bss := zeros3 6 (shape1 (am_inf self)) (length (rd_irf_t self)),
                          rd_ss_rad_conv := zeros2 6 (shape1 (am_inf self)),
                          rd_ss_it := zeros2 6 (shape1 (am_inf self)),
                          rd_ss_r2t := zeros2 6 (shape1 (am_inf self))\<rparr>) = Inr self'"
    using assms unfolding calc_ss_radiation_def Let_def for_each_product by simp
qed

lemma calc_ss_radiation_slots:
  assumes run: "calc_ss_radiation lib self mo thr = Inr self'"
  shows "containers self' (shape1 (am_inf self))"
    and "rd_irf_K self' = rd_irf_K self"
    and "\<forall>i<shape0 (am_inf self). \<forall>j<shape1 (am_inf self).
           pair_done lib (rd_irf_K self) (rd_irf_t self ! 2 - rd_irf_t self ! 1)
             (length (rd_irf_t self)) mo thr self' i j"
    and "\<forall>i<6. \<forall>j<shape1 (am_inf self). shape0 (am_inf self) \<le> i \<longrightarrow>
           slot_zero self' mo (length (rd_irf_t self)) i j"
proof -
  define n0 where "n0 = shape0 (am_inf self)"
  define n1 where "n1 = shape1 (am_inf self)"
  define K where "K = rd_irf_K self"
  define dt where "dt = rd_irf_t self ! 2 - rd_irf_t self ! 1"
  define nf where "nf = length (rd_irf_t self)"
  define idx where "idx = List.product [0..<n0] [0..<n1]"
  define body where "body = (\<lambda>p. ss_pair lib dt nf mo thr (fst p) (snd p))"
  define self0 where "self0 = self\<lparr>rd_ss_A := zeros4 6 n1 mo mo,
                          rd_ss_B := zeros4 6 n1 mo 1,
                          rd_ss_C := zeros4 6 n1 1 mo,
                          rd_ss_D := zeros3 6 n1 1,
                          rd_ss_irk_bss := zeros3 6 n1 nf,
                          rd_ss_rad_conv := zeros2 6 n1,
                          rd_ss_it := zeros2 6 n1,
                          rd_ss_r2t := zeros2 6 n1\<rparr>"
  define P where "P = (\<lambda>pre st. containers st n1 \<and> rd_irf_K st = K
      \<and> (\<forall>p \<in> set pre. pair_done lib K dt nf mo thr st (fst p) (snd p))
      \<and> (\<forall>i<6. \<forall>j<n1. (i, j) \<notin> set pre \<longrightarrow> slot_zero st mo nf i j))"
  have loop: "for_each idx body self0 = Inr self'"
    using calc_ss_radiation_unfold(2) [OF run]
    unfolding idx_def body_def self0_def n0_def n1_def dt_def nf_def .
  have dist: "distinct idx" unfolding idx_def by (simp add: distinct_product)
  have P0: "P [] self0"
    unfolding P_def
  proof (intro conjI)
    show "containers self0 n1" by (simp add: containers_def self0_def)
    show "rd_irf_K self0 = K" by (simp add: self0_def K_def)
    show "\<forall>p \<in> set []. pair_done lib K dt nf mo thr self0 (fst p) (snd p)" by simp
    show "\<forall>i<6. \<forall>j<n1. (i, j) \<notin> set [] \<longrightarrow> slot_zero self0 mo nf i j"
      by (simp add: slot_zero_def self0_def)
  qed
  have step: "P (pre @ [p]) t'"
    if xs: "idx = pre @ p # suf" and Pt: "P pre t" and b: "body p t = Inr t'"
    for pre p suf t t'
  proof -
    obtain i j where p: "p = (i, j)" by (cases p)
    from dist xs have notin: "p \<notin> set pre" by auto
    from xs have "p \<in> set idx" by simp
    with p have ij: "i < n0" "j < n1" by (auto simp: idx_def)
    from Pt have c: "containers t n1" and k: "rd_irf_K t = K"
      and dn: "\<forall>q \<in> set pre. pair_done lib K dt nf mo thr t (fst q) (snd q)"
      and zero: "\<forall>i<6. \<forall>j<n1. (i, j) \<notin> set pre \<longrightarrow> slot_zero t mo nf i j"
      by (simp_all add: P_def)
    from zero notin p ij(2) have z: "i < 6 \<longrightarrow> slot_zero t mo nf i j" by auto
    from b p have run': "ss_pair lib dt nf mo thr i j t = Inr t'" by (simp add: body_def)
    note S = ss_pair_step [OF c k z run']
    have d': "pair_done lib K dt nf mo thr t' (fst q) (snd q)" if q: "q \<in> set (pre @ [p])" for q
    proof (cases "q = p")
      case True
      with S p show ?thesis by simp
    next
      case False
      with q have qp: "q \<in> set pre" by auto
      from False p have "fst q \<noteq> i \<or> snd q \<noteq> j" by (cases q) auto
      with S have "pair_done lib K dt nf mo thr t' (fst q) (snd q)
                   = pair_done lib K dt nf mo thr t (fst q) (snd q)" by blast
      with dn qp show ?thesis by blast
    qed
    have z': "slot_zero t' mo nf i' j'"
      if "i' < 6" "j' < n1" "(i', j') \<notin> set (pre @ [p])" for i' j'
    proof -
      from that(3) p have ne: "i' \<noteq> i \<or> j' \<noteq> j" and np: "(i', j') \<notin> set pre" by auto
      from S ne have "slot_zero t' mo nf i' j' = slot_zero t mo nf i' j'" by blast
      with zero that(1,2) np show ?thesis by blast
    qed
    from S d' z' show ?thesis unfolding P_def by blast
  qed
  have "P idx self'"
    by (rule for_each_inv [where P = P, OF loop P0]) (rule step)
  then have c: "containers self' n1" and k: "rd_irf_K self' = K"
    and dn: "\<forall>p \<in> set idx. pair_done lib K dt nf mo thr self' (fst p) (snd p)"
    and zero: "\<forall>i<6. \<forall>j<n1. (i, j) \<notin> set idx \<longrightarrow> slot_zero self' mo nf i j"
    by (simp_all add: P_def)
  show "containers self' (shape1 (am_inf self))" using c by (simp add: n1_def)
  show "rd_irf_K self' = rd_irf_K self" using k by (simp add: K_def)
  show "\<forall>i<shape0 (am_inf self). \<forall>j<shape1 (am_inf self).
           pair_done lib (rd_irf_K self) (rd_irf_t self ! 2 - rd_irf_t self ! 1)
             (length (rd_irf_t self)) mo thr self' i j"
    using dn unfolding idx_def n0_def n1_def K_def dt_def nf_def by fastforce
  show "\<forall>i<6. \<forall>j<shape1 (am_inf self). shape0 (am_inf self) \<le> i \<longrightarrow>
           slot_zero self' mo (length (rd_irf_t self)) i j"
    using zero unfolding idx_def n0_def n1_def nf_def by fastforce
qed

section \<open>The example kernel\<close>

lemma example_reference_norm: "reference_norm [0, 0, 1] \<noteq> 0"
  by (simp add: reference_norm_def np_norm_def np_mean_def power2_eq_square)

lemma example_realize:
  "realize example_linalg 1 3 [0, 0, 1] (reference_norm [0, 0, 1]) 2 = Inr example_realization"
  using example_response
  by (simp add: realize_def example_discrete example_bilinear vec_sub_def
      example_realization_def Let_def)

lemma example_realize_3:
  "realize example_linalg 1 3 [0, 0, 1] r2bt 3 = Inl ValueError"
  by (simp add: realize_def discrete_realization_def example_linalg_def hankel_def upt2 Let_def)

lemma example_R2T: "R2T example_realization < 95 / 100"
proof -
  have nz: "reference_norm [0, 0, 1] \<noteq> 0" by (rule example_reference_norm)
  have r: "(reference_norm [0, 0, 1])\<^sup>2 = 2 / 3"
    by (simp add: reference_norm_def np_norm_def np_mean_def power2_eq_square)
  have n: "(np_norm [8, - (8 * exp (- 2)), 1 - 24 * exp (- 4)])\<^sup>2
             = 64 + (8 * exp (- 2))\<^sup>2 + (1 - 24 * exp (- 4))\<^sup>2"
    by (simp add: np_norm_def)
  have "64 \<le> (np_norm [8, - (8 * exp (- 2)), 1 - 24 * exp (- 4)])\<^sup>2"
    unfolding n
    using zero_le_power2 [of "8 * exp (- 2 :: real)"] zero_le_power2 [of "1 - 24 * exp (- 4 :: real)"]
    by linarith
  then have "96 \<le> (np_norm [8, - (8 * exp (- 2)), 1 - 24 * exp (- 4)] / reference_norm [0, 0, 1])\<^sup>2"
    unfolding power_divide r by simp
  then show ?thesis by (simp add: example_realization_def)
qed

lemma order_search_bound:
  "fst (order_search lib dt numFreq Kij r2bt thr max_order s0)
     \<le> max s0 (Suc (singular_count lib dt Kij))"
proof (induction lib dt numFreq Kij r2bt thr max_order s0 rule: order_search.induct)
  case (1 lib dt numFreq Kij r2bt thr max_order s0)
  show ?case
  proof (cases "realize lib dt numFreq Kij r2bt s0")
    case (Inl e)
    then show ?thesis by (subst order_search.simps) simp
  next
    case (Inr r)
    note b = realize_order_bound [OF Inr]
    show ?thesis
    proof (cases "thr \<le> R2T r \<or> s0 = max_order")
      case True
      with Inr show ?thesis by (subst order_search.simps) auto
    next
      case False
      then have nthr: "\<not> thr \<le> R2T r" and ne: "s0 \<noteq> max_order" by auto
      have "order_search lib dt numFreq Kij r2bt thr max_order s0
              = order_search lib dt numFreq Kij r2bt thr max_order (s0 + 1)"
        using Inr nthr ne by (subst order_search.simps) simp
      with "1.IH" [OF Inr nthr ne] b show ?thesis by simp
    qed
  qed
qed

lemma order_search_no_fit:
  assumes "order_search lib dt numFreq Kij r2bt thr max_order s0 = (ss, Inr (status, r))"
    and "max_order < s0"
  shows "thr \<le> R2T r"
proof -
  from order_search_general [OF assms(1)]
  have "s0 \<le> ss" "status = 1 \<and> thr \<le> R2T r \<or> status = 2 \<and> R2T r < thr \<and> ss = max_order"
    by auto
  with assms(2) show ?thesis by auto
qed

text \<open>
  C10, as the code has it. The search loop always ends. Entered with order \<open>2\<close>, it ends
  at an order of at least \<open>2\<close>; when \<open>max_order\<close> is at least \<open>2\<close> it ends at an order of
  at most \<open>max_order\<close>, so after at most \<open>max_order - 1\<close> increments. Whatever \<open>max_order\<close>
  is, it ends no later than the order that exceeds the number of singular values, where
  the reshape of the singular values raises \<open>ValueError\<close>: with \<open>max_order\<close> below \<open>2\<close>
  and no order from \<open>2\<close> on meeting the threshold, the loop ends in an exception.
\<close>

theorem order_search_terminates:
  "(2 \<le> max_order \<longrightarrow>
       fst (order_search lib dt numFreq Kij r2bt thr max_order 2) \<le> max_order
     \<and> fst (order_search lib dt numFreq Kij r2bt thr max_order 2) - 2 \<le> max_order - 1)
   \<and> 2 \<le> fst (order_search lib dt numFreq Kij r2bt thr max_order 2)
   \<and> fst (order_search lib dt numFreq Kij r2bt thr max_order 2)
         \<le> max 2 (Suc (singular_count lib dt Kij))
   \<and> (max_order < 2
        \<and> (\<forall>k\<ge>2. \<forall>r'. realize lib dt numFreq Kij r2bt k = Inr r' \<longrightarrow> R2T r' < thr)
      \<longrightarrow> (\<exists>e. snd (order_search lib dt numFreq Kij r2bt thr max_order 2) = Inl e))"
proof -
  obtain ss out where S: "order_search lib dt numFreq Kij r2bt thr max_order 2 = (ss, out)"
    by (cases "order_search lib dt numFreq Kij r2bt thr max_order 2")
  note G = order_search_general [OF S]
  from G have lo: "2 \<le> ss" and hi: "2 \<le> max_order \<longrightarrow> ss \<le> max_order" by auto
  have b: "ss \<le> max 2 (Suc (singular_count lib dt Kij))"
    using order_search_bound [of lib dt numFreq Kij r2bt thr max_order 2] S by simp
  have exc: "\<exists>e. out = Inl e"
    if mo: "max_order < 2"
      and nofit: "\<forall>k\<ge>2. \<forall>r'. realize lib dt numFreq Kij r2bt k = Inr r' \<longrightarrow> R2T r' < thr"
  proof (cases out)
    case (Inl e)
    then show ?thesis by simp
  next
    case (Inr sr)
    obtain status r where sr: "sr = (status, r)" by (cases sr)
    from G Inr sr have r: "realize lib dt numFreq Kij r2bt ss = Inr r"
      and st: "status = 1 \<and> thr \<le> R2T r \<or> status = 2 \<and> R2T r < thr \<and> ss = max_order"
      by auto
    from nofit lo r have "R2T r < thr" by blast
    with st mo lo show ?thesis by auto
  qed
  from lo hi b exc show ?thesis unfolding S by auto
qed

lemma example_singular_count: "singular_count example_linalg 1 [0, 0, 1] = 2"
  by (simp add: singular_count_def example_linalg_def hankel_def upt2)

lemma example_search_limit:
  "order_search example_linalg 1 3 [0, 0, 1] (reference_norm [0, 0, 1]) (95 / 100) 2 2
     = (2, Inr (2, example_realization))"
  using example_R2T by (subst order_search.simps) (simp add: example_realize)

lemma example_search_raises:
  "order_search example_linalg 1 3 [0, 0, 1] (reference_norm [0, 0, 1]) (95 / 100) 1 2
     = (3, Inl ValueError)"
proof -
  have "order_search example_linalg 1 3 [0, 0, 1] (reference_norm [0, 0, 1]) (95 / 100) 1 2
        = order_search example_linalg 1 3 [0, 0, 1] (reference_norm [0, 0, 1]) (95 / 100) 1 3"
    using example_R2T by (subst order_search.simps) (simp add: example_realize)
  also have "\<dots> = (3, Inl ValueError)"
    by (subst order_search.simps) (simp add: example_realize_3)
  finally show ?thesis .
qed

theorem order_search_terminates_witness:
  "fst (order_search example_linalg 1 3 [0, 0, 1] (reference_norm [0, 0, 1]) (95 / 100) 2 2) \<le> 2
   \<and> fst (order_search example_linalg 1 3 [0, 0, 1] (reference_norm [0, 0, 1]) (95 / 100) 2 2) - 2
       \<le> 2 - 1
   \<and> (\<exists>e. snd (order_search example_linalg 1 3 [0, 0, 1] (reference_norm [0, 0, 1])
                  (95 / 100) 1 2) = Inl e)"
proof -
  have nofit: "\<forall>k\<ge>2. \<forall>r'. realize example_linalg 1 3 [0, 0, 1] (reference_norm [0, 0, 1]) k = Inr r'
                 \<longrightarrow> R2T r' < 95 / 100"
  proof (intro allI impI)
    fix k r'
    assume k: "2 \<le> (k::nat)"
      and r: "realize example_linalg 1 3 [0, 0, 1] (reference_norm [0, 0, 1]) k = Inr r'"
    from realize_order_bound [OF r] have "k \<le> 2" by (simp add: example_singular_count)
    with k have "k = 2" by simp
    with r have "r' = example_realization" by (simp add: example_realize)
    then show "R2T r' < 95 / 100" using example_R2T by simp
  qed
  from order_search_terminates [of 2 example_linalg 1 3 "[0, 0, 1]" "reference_norm [0, 0, 1]"
      "95 / 100"]
  have a: "fst (order_search example_linalg 1 3 [0, 0, 1] (reference_norm [0, 0, 1]) (95 / 100) 2 2) \<le> 2
    \<and> fst (order_search example_linalg 1 3 [0, 0, 1] (reference_norm [0, 0, 1]) (95 / 100) 2 2) - 2
       \<le> 2 - 1"
    by simp
  from order_search_terminates [of 1 example_linalg 1 3 "[0, 0, 1]" "reference_norm [0, 0, 1]"
      "95 / 100"] nofit
  have b: "\<exists>e. snd (order_search example_linalg 1 3 [0, 0, 1] (reference_norm [0, 0, 1])
                  (95 / 100) 1 2) = Inl e"
    by simp
  from a b show ?thesis by blast
qed

text \<open>
  The example with \<open>max_order = 1\<close> and the threshold \<open>0.95\<close>: the kernel is not
  degenerate, order \<open>2\<close> does not meet the threshold, and the pass for order \<open>3\<close> raises
  \<open>ValueError\<close>, which ends the loop.
\<close>

theorem low_max_order_loop_exits:
  "reference_norm [0, 0, 1] \<noteq> 0
   \<and> realize example_linalg 1 3 [0, 0, 1] (reference_norm [0, 0, 1]) 2 = Inr example_realization
   \<and> R2T example_realization < 95 / 100
   \<and> realize example_linalg 1 3 [0, 0, 1] (reference_norm [0, 0, 1]) 3 = Inl ValueError
   \<and> order_search example_linalg 1 3 [0, 0, 1] (reference_norm [0, 0, 1]) (95 / 100) 1 2
       = (3, Inl ValueError)"
  using example_reference_norm example_realize example_R2T example_realize_3 example_search_raises
  by blast

text \<open>
  C6. At every order \<open>ss\<close> for which a pass of the loop completes, the continuous
  matrices come from the discrete realization \<open>(a, b, c, d)\<close> of that order by the
  bilinear substitution with the coefficients \<open>(dt/2, 1, -dt/2, 1)\<close>: with
  \<open>M = inv (dt/2 * I - (-dt/2) * a)\<close>, an inversion of the \<open>ss \<times> ss\<close> matrix, they are
  \<open>ac = (a - I) * M\<close>, \<open>bc = (dt/2 * 1 - (-dt/2) * 1) * M * b\<close>, \<open>cc = c * M\<close> and
  \<open>dc = d + (-dt/2) * c * M * b\<close>.
\<close>

theorem bilinear_substitution:
  assumes "realize lib dt numFreq Kij r2bt ss = Inr r"
  shows "\<exists>a b c d M.
      discrete_realization lib dt numFreq Kij ss = Inr (a, b, c, d)
    \<and> inv lib (mat_sub (smult (dt / 2) (eye ss)) (smult (- (dt / 2)) a)) = Inr M
    \<and> ac r = dot (mat_sub a (eye ss)) M
    \<and> bc r = smult (dt / 2 * 1 - (- (dt / 2)) * 1) (dot M b)
    \<and> cc r = dot c M
    \<and> dc r = sadd d (smult (- (dt / 2)) (dot (dot c M) b))"
  using assms
  by (auto simp: realize_def bilinear_def Let_def split: sum.splits prod.splits)

theorem bilinear_substitution_witness:
  "realize example_linalg 1 3 [0, 0, 1] (reference_norm [0, 0, 1]) 2 = Inr example_realization
   \<and> (\<exists>a b c d M.
      discrete_realization example_linalg 1 3 [0, 0, 1] 2 = Inr (a, b, c, d)
    \<and> inv example_linalg (mat_sub (smult (1 / 2) (eye 2)) (smult (- (1 / 2)) a)) = Inr M
    \<and> ac example_realization = dot (mat_sub a (eye 2)) M
    \<and> bc example_realization = smult (1 / 2 * 1 - (- (1 / 2)) * 1) (dot M b)
    \<and> cc example_realization = dot c M
    \<and> dc example_realization = sadd d (smult (- (1 / 2)) (dot (dot c M) b)))"
  using bilinear_substitution [OF example_realize] example_realize by blast

lemma example_degenerate: "reference_norm [5, 5, 5] = 0"
  by (simp add: reference_norm_def np_norm_def np_mean_def)

lemma example_write:
  "write_realization
     (example_irf_store\<lparr>rd_ss_A := zeros4 6 2 2 2, rd_ss_B := zeros4 6 2 2 1,
         rd_ss_C := zeros4 6 2 1 2, rd_ss_D := zeros3 6 2 1, rd_ss_irk_bss := zeros3 6 2 3,
         rd_ss_rad_conv := zeros2 6 2, rd_ss_it := zeros2 6 2, rd_ss_r2t := zeros2 6 2\<rparr>)
     0 0 2 2 example_realization = Inr example_ss_store"
  by (simp add: write_realization_def example_realization_def example_ss_store_def
      set_block_def set_row_def set_elem2_def col0_def col_mat_def row_mat_def write_block_def
      upd2_def shape1_def zeros4_def zeros3_def zeros2_def zeros1_def upt2 Let_def
      numeral_2_eq_2 eval_nat_numeral)

lemma example_run:
  "calc_ss_radiation example_linalg example_irf_store 2 (95 / 100) = Inr example_ss_store"
proof -
  have t: "rd_irf_t example_irf_store = [0, 1, 2]"
    and k: "rd_irf_K example_irf_store = [[[0, 0, 1], [5, 5, 5]]]"
    and a: "am_inf example_irf_store = [[0, 0]]"
    by (simp_all add: example_irf_store_def example_store_def)
  have k': "rd_irf_K example_ss_store = [[[0, 0, 1], [5, 5, 5]]]"
    by (simp add: example_ss_store_def k)
  have p0: "ss_pair example_linalg 1 3 2 (95 / 100) 0 0
     (example_irf_store\<lparr>rd_ss_A := zeros4 6 2 2 2, rd_ss_B := zeros4 6 2 2 1,
         rd_ss_C := zeros4 6 2 1 2, rd_ss_D := zeros3 6 2 1, rd_ss_irk_bss := zeros3 6 2 3,
         rd_ss_rad_conv := zeros2 6 2, rd_ss_it := zeros2 6 2, rd_ss_r2t := zeros2 6 2\<rparr>)
     = Inr example_ss_store"
    using example_reference_norm example_search_limit example_write
    by (simp add: ss_pair_def k get_row_def Let_def)
  have p1: "ss_pair example_linalg 1 3 2 (95 / 100) 0 (Suc 0) example_ss_store
     = Inr example_ss_store"
    by (simp add: ss_pair_def k' get_row_def Let_def example_degenerate)
  have f: "length (rd_irf_t example_irf_store) = 3"
    "rd_irf_t example_irf_store ! 2 - rd_irf_t example_irf_store ! 1 = 1"
    "shape0 (am_inf example_irf_store) = 1" "shape1 (am_inf example_irf_store) = 2"
    by (simp_all add: t a shape0_def shape1_def)
  have u1: "[0..<1] = [0]" by simp
  show ?thesis
    unfolding calc_ss_radiation_def Let_def f u1 upt2
    by (simp only: for_each.simps p0 p1 sum.case less_irrefl if_False)
qed

lemma example_linalg_shapes: "linalg_shapes example_linalg"
  by (auto simp: linalg_shapes_def example_linalg_def inv2_def
           split: if_splits list.splits)

lemma length_transpose_rect:
  assumes "xs \<noteq> []" "\<forall>row \<in> set xs. length row = n"
  shows "length (transpose xs) = n"
proof -
  have "foldr (\<lambda>xs. max (length xs)) xs 0 = (if xs = [] then 0 else n)"
    using assms(2) by (induction xs) auto
  with assms(1) show ?thesis by (simp add: length_transpose)
qed

lemma length_transpose_le:
  assumes "\<forall>row \<in> set xs. length row \<le> n"
  shows "length (transpose xs) \<le> n"
proof -
  have "foldr (\<lambda>xs. max (length xs)) xs 0 \<le> n"
    using assms by (induction xs) auto
  then show ?thesis by (simp add: length_transpose)
qed

lemma length_dot [simp]: "length (dot a b) = length a"
  by (simp add: dot_def)

lemma length_smult [simp]: "length (smult x a) = length a"
  by (simp add: smult_def)

lemma length_eye [simp]: "length (eye n) = n"
  by (simp add: eye_def)

lemma length_mat_sub [simp]: "length (mat_sub a b) = min (length a) (length b)"
  by (simp add: mat_sub_def)

lemma length_mat_times [simp]: "length (mat_times a b) = min (length a) (length b)"
  by (simp add: mat_times_def)

lemma length_col_mat [simp]: "length (col_mat v) = length v"
  by (simp add: col_mat_def)

lemma discrete_realization_shape:
  assumes sh: "linalg_shapes lib" and nf: "3 \<le> nf"
    and d: "discrete_realization lib dt nf Kij ss = Inr (a, b, c, d)"
  shows "length a = ss" "length c = 1"
proof -
  from d obtain u svh v where svd: "svd lib (hankel (tl (map ((*) dt) Kij))) = Inr (u, svh, v)"
    by (auto simp: discrete_realization_def Let_def split: sum.splits)
  define u1 where "u1 = map (take ss) (take (nf - 2) u)"
  define u2 where "u2 = map (take ss) (drop 1 (take (nf - 1) u))"
  define sqs where "sqs = map sqrt (take ss svh)"
  from d svd have ss: "length (take ss svh) = ss" and u1ne: "u1 \<noteq> []"
    and a: "a = mat_times (dot (transpose u1) u2)
                  (dot (col_mat (map (\<lambda>x. 1 / x) sqs)) (row_mat sqs))"
    and c: "c = mat_times (row_mat (hd u1)) (row_mat sqs)"
    unfolding u1_def u2_def sqs_def
    by (auto simp: discrete_realization_def Let_def split: list.splits if_splits)
  from sh svd have us: "\<forall>row \<in> set u. length row = length svh"
    unfolding linalg_shapes_def by metis
  from ss have le: "ss \<le> length svh" by simp
  have rows: "\<forall>row \<in> set u1. length row = ss"
    unfolding u1_def using us le by (auto dest: in_set_takeD)
  have "length (transpose u1) = ss"
    by (rule length_transpose_rect [OF u1ne rows])
  then show "length a = ss" unfolding a using ss by (simp add: sqs_def)
  show "length c = 1" unfolding c by (simp add: row_mat_def)
qed

lemma realize_parts:
  assumes "realize lib dt numFreq Kij r2bt ss = Inr r"
  shows "\<exists>a b c d M.
      discrete_realization lib dt numFreq Kij ss = Inr (a, b, c, d)
    \<and> inv lib (mat_sub (smult (dt / 2) (eye ss)) (smult (- (dt / 2)) a)) = Inr M
    \<and> ac r = dot (mat_sub a (eye ss)) M
    \<and> bc r = smult dt (dot M b)
    \<and> cc r = dot c M"
  using assms
  by (auto simp: realize_def bilinear_def Let_def split: sum.splits prod.splits)

lemma realize_shape:
  assumes sh: "linalg_shapes lib" and nf: "3 \<le> nf"
    and r: "realize lib dt nf Kij r2bt ss = Inr r"
  shows "length (ac r) = ss" "length (bc r) = ss" "shape1 (cc r) \<le> ss"
proof -
  from realize_parts [OF r] obtain a b c d M where
    d: "discrete_realization lib dt nf Kij ss = Inr (a, b, c, d)"
    and M: "inv lib (mat_sub (smult (dt / 2) (eye ss)) (smult (- (dt / 2)) a)) = Inr M"
    and ac: "ac r = dot (mat_sub a (eye ss)) M"
    and bc: "bc r = smult dt (dot M b)"
    and cc: "cc r = dot c M"
    by blast
  note s = discrete_realization_shape [OF sh nf d]
  from sh M have Ms: "length M = ss" "\<forall>row \<in> set M. length row = ss"
    unfolding linalg_shapes_def using s(1) by (metis length_mat_sub length_smult length_eye min.idem)+
  show "length (ac r) = ss" unfolding ac using s(1) by simp
  show "length (bc r) = ss" unfolding bc using Ms(1) by simp
  have "length (transpose M) \<le> ss"
    by (rule length_transpose_le) (use Ms(2) in simp)
  moreover obtain c0 where "c = [c0]" using s(2) by (cases c) auto
  ultimately show "shape1 (cc r) \<le> ss" unfolding cc by (simp add: dot_def shape1_def)
qed

section \<open>The recorded realizations\<close>

lemma write_block_zeros:
  assumes len: "length blk \<le> m" and rows: "\<forall>row \<in> set blk. length row = k" and k: "k \<le> n"
  shows "length (write_block (zeros2 m n) blk) = m"
    and "\<forall>row \<in> set (write_block (zeros2 m n) blk). length row = n"
    and "\<forall>r<m. \<forall>c<n. length blk \<le> r \<or> k \<le> c \<longrightarrow> write_block (zeros2 m n) blk ! r ! c = 0"
proof -
  show "length (write_block (zeros2 m n) blk) = m"
    by (simp add: write_block_def)
  have row: "write_block (zeros2 m n) blk ! r
               = (if r < length blk then blk ! r @ drop k (zeros1 n) else zeros1 n)"
    if "r < m" for r
    using that rows by (simp add: write_block_def)
  have lenrow: "length (write_block (zeros2 m n) blk ! r) = n" if "r < m" for r
    using that rows k by (simp add: row)
  show "\<forall>row \<in> set (write_block (zeros2 m n) blk). length row = n"
    using lenrow \<open>length (write_block (zeros2 m n) blk) = m\<close>
    by (metis in_set_conv_nth)
  show "\<forall>r<m. \<forall>c<n. length blk \<le> r \<or> k \<le> c \<longrightarrow> write_block (zeros2 m n) blk ! r ! c = 0"
  proof (intro allI impI)
    fix r c assume r: "r < m" and c: "c < n" and out: "length blk \<le> r \<or> k \<le> c"
    show "write_block (zeros2 m n) blk ! r ! c = 0"
    proof (cases "r < length blk")
      case False
      with r c show ?thesis by (simp add: row)
    next
      case True
      with out have kc: "k \<le> c" by simp
      from True rows have "length (blk ! r) = k" by simp
      with True r c kc show ?thesis
        by (simp add: row nth_append zeros1_def)
    qed
  qed
qed

lemma slot_zero_leading_block:
  assumes "slot_zero st mo nf i j"
  shows "leading_block st mo i j 0"
  using assms
  by (auto simp: slot_zero_def leading_block_def zeros2_def zeros1_def)

lemma slot_written_leading_block:
  assumes w: "slot_written st mo nf i j ss status r"
    and len: "length (ac r) = ss" "length (bc r) = ss" "shape1 (cc r) \<le> ss"
  shows "leading_block st mo i j ss"
proof -
  from w have A: "rd_ss_A st ! i ! j = write_block (zeros2 mo mo) (ac r)"
    and lA: "length (ac r) \<le> mo" and rA: "\<forall>row \<in> set (ac r). length row = length (ac r)"
    and B: "rd_ss_B st ! i ! j = write_block (zeros2 mo 1) (col_mat (map hd (bc r)))"
    and lB: "length (bc r) \<le> mo"
    and C: "rd_ss_C st ! i ! j = write_block (zeros2 1 mo) (row_mat (hd (cc r)))"
    and ne: "cc r \<noteq> []" and lC: "shape1 (cc r) \<le> mo"
    by (simp_all add: slot_written_def)
  note a = write_block_zeros [OF lA rA lA]
  have lB': "length (col_mat (map hd (bc r))) \<le> mo" using lB by (simp add: col_mat_def)
  have rB: "\<forall>row \<in> set (col_mat (map hd (bc r))). length row = 1"
    by (auto simp: col_mat_def)
  note b = write_block_zeros [OF lB' rB order_refl]
  from ne have hc: "length (hd (cc r)) = shape1 (cc r)"
    by (cases "cc r") (simp_all add: shape1_def)
  have lC': "length (row_mat (hd (cc r))) \<le> 1" by (simp add: row_mat_def)
  have rC: "\<forall>row \<in> set (row_mat (hd (cc r))). length row = shape1 (cc r)"
    by (simp add: row_mat_def hc)
  note c = write_block_zeros [OF lC' rC lC]
  show ?thesis
    unfolding leading_block_def A B C
  proof (intro conjI)
    show "length (write_block (zeros2 mo mo) (ac r)) = mo" by (rule a(1))
    show "\<forall>row \<in> set (write_block (zeros2 mo mo) (ac r)). length row = mo" by (rule a(2))
    show "length (write_block (zeros2 mo 1) (col_mat (map hd (bc r)))) = mo" by (rule b(1))
    show "\<forall>row \<in> set (write_block (zeros2 mo 1) (col_mat (map hd (bc r)))). length row = 1"
      by (rule b(2))
    show "length (write_block (zeros2 1 mo) (row_mat (hd (cc r)))) = 1" by (rule c(1))
    show "\<forall>row \<in> set (write_block (zeros2 1 mo) (row_mat (hd (cc r)))). length row = mo"
      by (rule c(2))
    show "\<forall>r'<mo. \<forall>c'<mo. ss \<le> r' \<or> ss \<le> c' \<longrightarrow>
            write_block (zeros2 mo mo) (ac r) ! r' ! c' = 0"
      using a(3) len(1) by simp
    show "\<forall>r'<mo. ss \<le> r' \<longrightarrow> write_block (zeros2 mo 1) (col_mat (map hd (bc r))) ! r' ! 0 = 0"
      using b(3) len(2) by (simp add: col_mat_def)
    show "\<forall>c'<mo. ss \<le> c' \<longrightarrow> write_block (zeros2 1 mo) (row_mat (hd (cc r))) ! 0 ! c' = 0"
      using c(3) len(3) by auto
  qed
qed

text \<open>
  C2. Whenever \<open>calc_ss_radiation\<close> returns, every pair \<open>(i, j)\<close> of the loops that
  has a row in the containers (\<open>i < 6\<close>) has a kernel. If the reference norm of the kernel
  is zero, the body of the loops returns the store unchanged, without raising, and in the
  result the status \<open>rad_conv[i, j]\<close> is \<open>0\<close> and the entries of \<open>A\<close>, \<open>B\<close>, \<open>C\<close>, \<open>D\<close>,
  \<open>irk_bss\<close>, \<open>r2t\<close> and \<open>it\<close> are all zero. Every other pair has been searched, has the
  status \<open>1\<close> or \<open>2\<close> of its own search in \<open>rad_conv[i, j]\<close>, and holds what was written
  from that search.
\<close>

theorem degenerate_pair_skipped:
  assumes run: "calc_ss_radiation lib self mo thr = Inr self'"
    and i: "i < shape0 (am_inf self)" "i < 6" and j: "j < shape1 (am_inf self)"
  shows "\<exists>Kij. get_row (rd_irf_K self) i j = Inr Kij
     \<and> (reference_norm Kij = 0 \<longrightarrow>
           (\<forall>st. rd_irf_K st = rd_irf_K self \<longrightarrow>
                 ss_pair lib (rd_irf_t self ! 2 - rd_irf_t self ! 1) (length (rd_irf_t self))
                   mo thr i j st = Inr st)
         \<and> rd_ss_rad_conv self' ! i ! j = 0
         \<and> slot_zero self' mo (length (rd_irf_t self)) i j)
     \<and> (reference_norm Kij \<noteq> 0 \<longrightarrow>
           (\<exists>ss status r.
              order_search lib (rd_irf_t self ! 2 - rd_irf_t self ! 1) (length (rd_irf_t self))
                Kij (reference_norm Kij) thr mo 2 = (ss, Inr (status, r))
            \<and> (status = 1 \<or> status = 2)
            \<and> rd_ss_rad_conv self' ! i ! j = real status
            \<and> slot_written self' mo (length (rd_irf_t self)) i j ss status r))"
proof -
  define dt where "dt = rd_irf_t self ! 2 - rd_irf_t self ! 1"
  define nf where "nf = length (rd_irf_t self)"
  from calc_ss_radiation_slots(3) [OF run] i(1) j
  have pd: "pair_done lib (rd_irf_K self) dt nf mo thr self' i j"
    by (simp add: dt_def nf_def)
  then obtain Kij where K: "get_row (rd_irf_K self) i j = Inr Kij"
    and cases: "reference_norm Kij = 0 \<and> (i < 6 \<longrightarrow> slot_zero self' mo nf i j)
       \<or> reference_norm Kij \<noteq> 0 \<and> i < 6
         \<and> (\<exists>ss status r.
               order_search lib dt nf Kij (reference_norm Kij) thr mo 2 = (ss, Inr (status, r))
             \<and> slot_written self' mo nf i j ss status r)"
    unfolding pair_done_def by blast
  have deg: "(\<forall>st. rd_irf_K st = rd_irf_K self \<longrightarrow> ss_pair lib dt nf mo thr i j st = Inr st)
         \<and> rd_ss_rad_conv self' ! i ! j = 0 \<and> slot_zero self' mo nf i j"
    if z: "reference_norm Kij = 0"
  proof -
    from cases z i(2) have sz: "slot_zero self' mo nf i j" by auto
    have "ss_pair lib dt nf mo thr i j st = Inr st" if "rd_irf_K st = rd_irf_K self" for st
      using that K z by (simp add: ss_pair_def)
    with sz show ?thesis by (simp add: slot_zero_def)
  qed
  have nondeg: "\<exists>ss status r.
              order_search lib dt nf Kij (reference_norm Kij) thr mo 2 = (ss, Inr (status, r))
            \<and> (status = 1 \<or> status = 2)
            \<and> rd_ss_rad_conv self' ! i ! j = real status
            \<and> slot_written self' mo nf i j ss status r"
    if nz: "reference_norm Kij \<noteq> 0"
  proof -
    from cases nz obtain ss status r where
      os: "order_search lib dt nf Kij (reference_norm Kij) thr mo 2 = (ss, Inr (status, r))"
      and sw: "slot_written self' mo nf i j ss status r"
      by auto
    from order_search_general [OF os] have "status = 1 \<or> status = 2" by auto
    moreover from sw have "rd_ss_rad_conv self' ! i ! j = real status"
      by (simp add: slot_written_def)
    ultimately show ?thesis using os sw by blast
  qed
  from K deg nondeg show ?thesis unfolding dt_def nf_def by blast
qed


text \<open>
  C9. Whenever \<open>calc_ss_radiation\<close> returns and the library routines return arrays of
  the shapes they document, every slot \<open>(i, j)\<close> of the containers holds an
  \<open>max_order \<times> max_order\<close> matrix \<open>A[i, j]\<close>, a \<open>max_order \<times> 1\<close> matrix \<open>B[i, j]\<close> and a
  \<open>1 \<times> max_order\<close> matrix \<open>C[i, j]\<close>; the recorded order \<open>it[i, j]\<close> is a number \<open>n\<close> of
  at most \<open>max_order\<close>, and every entry of the three matrices outside the leading block of
  size \<open>n\<close> is zero.
\<close>

theorem containers_leading_block:
  assumes run: "calc_ss_radiation lib self mo thr = Inr self'"
    and sh: "linalg_shapes lib"
    and i: "i < 6" and j: "j < shape1 (am_inf self)"
  shows "\<exists>n. rd_ss_it self' ! i ! j = real n \<and> n \<le> mo \<and> leading_block self' mo i j n"
proof -
  define dt where "dt = rd_irf_t self ! 2 - rd_irf_t self ! 1"
  define nf where "nf = length (rd_irf_t self)"
  have nf3: "3 \<le> nf" using calc_ss_radiation_unfold(1) [OF run] by (simp add: nf_def)
  have zero: ?thesis if z: "slot_zero self' mo nf i j"
  proof -
    from z have "rd_ss_it self' ! i ! j = real 0" by (simp add: slot_zero_def)
    with slot_zero_leading_block [OF z] show ?thesis by blast
  qed
  show ?thesis
  proof (cases "i < shape0 (am_inf self)")
    case False
    with calc_ss_radiation_slots(4) [OF run] i j have "slot_zero self' mo nf i j"
      by (simp add: nf_def)
    then show ?thesis by (rule zero)
  next
    case True
    with calc_ss_radiation_slots(3) [OF run] j
    have "pair_done lib (rd_irf_K self) dt nf mo thr self' i j"
      by (simp add: dt_def nf_def)
    then consider (z) "slot_zero self' mo nf i j"
      | (w) Kij ss status r where
          "order_search lib dt nf Kij (reference_norm Kij) thr mo 2 = (ss, Inr (status, r))"
          "slot_written self' mo nf i j ss status r"
      unfolding pair_done_def using i by blast
    then show ?thesis
    proof cases
      case z
      then show ?thesis by (rule zero)
    next
      case w
      from order_search_general [OF w(1)]
      have r: "realize lib dt nf Kij (reference_norm Kij) ss = Inr r" by auto
      note s = realize_shape [OF sh nf3 r]
      from w(2) have it: "rd_ss_it self' ! i ! j = real ss" and "length (ac r) \<le> mo"
        by (simp_all add: slot_written_def)
      with s(1) have "ss \<le> mo" by simp
      with it slot_written_leading_block [OF w(2) s] show ?thesis by blast
    qed
  qed
qed

lemma example_irf_facts:
  "shape0 (am_inf example_irf_store) = 1" "shape1 (am_inf example_irf_store) = 2"
  "get_row (rd_irf_K example_irf_store) 0 0 = Inr [0, 0, 1]"
  "get_row (rd_irf_K example_irf_store) 0 1 = Inr [5, 5, 5]"
  by (simp_all add: example_irf_store_def example_store_def shape0_def shape1_def get_row_def)

theorem degenerate_pair_skipped_witness:
  "calc_ss_radiation example_linalg example_irf_store 2 (95 / 100) = Inr example_ss_store
   \<and> get_row (rd_irf_K example_irf_store) 0 1 = Inr [5, 5, 5]
   \<and> reference_norm [5, 5, 5] = 0
   \<and> rd_ss_rad_conv example_ss_store ! 0 ! 1 = 0
   \<and> slot_zero example_ss_store 2 (length (rd_irf_t example_irf_store)) 0 1"
proof -
  have h: "(0::nat) < shape0 (am_inf example_irf_store)" "(0::nat) < 6"
    "(1::nat) < shape1 (am_inf example_irf_store)"
    by (simp_all add: example_irf_facts)
  from degenerate_pair_skipped [OF example_run h]
  obtain Kij where "get_row (rd_irf_K example_irf_store) 0 1 = Inr Kij"
    and z: "reference_norm Kij = 0 \<longrightarrow>
           rd_ss_rad_conv example_ss_store ! 0 ! 1 = 0
         \<and> slot_zero example_ss_store 2 (length (rd_irf_t example_irf_store)) 0 1"
    by blast
  with example_irf_facts(4) have "Kij = [5, 5, 5]" by simp
  with z example_degenerate example_run example_irf_facts(4) show ?thesis by blast
qed


theorem containers_leading_block_witness:
  "calc_ss_radiation example_linalg example_irf_store 2 (95 / 100) = Inr example_ss_store
   \<and> (\<exists>n. rd_ss_it example_ss_store ! 0 ! 0 = real n \<and> n \<le> 2
          \<and> leading_block example_ss_store 2 0 0 n)
   \<and> (\<exists>n. rd_ss_it example_ss_store ! 5 ! 1 = real n \<and> n \<le> 2
          \<and> leading_block example_ss_store 2 5 1 n)"
proof -
  have h: "(0::nat) < 6" "(0::nat) < shape1 (am_inf example_irf_store)"
    "(5::nat) < 6" "(1::nat) < shape1 (am_inf example_irf_store)"
    by (simp_all add: example_irf_facts)
  from containers_leading_block [OF example_run example_linalg_shapes h(1,2)]
    containers_leading_block [OF example_run example_linalg_shapes h(3,4)]
    example_run
  show ?thesis by blast
qed

end
